theory Spec2Isabelle
  imports Main "HOL-Library.AList" "HOL-Library.Word"
begin

section \<open>Image references and the registry client of \<open>renku_notebooks/api/classes/image.py\<close>\<close>

subsection \<open>Python values\<close>

text \<open>
  A Python \<open>str\<close> is a \<open>string\<close>; the character classes of the source only contain
  ASCII characters, so a character outside ASCII belongs to none of them. A Python
  \<open>dict\<close> with string keys is an association list with distinct keys, kept in insertion
  order: \<open>d[k] = v\<close> is \<open>AList.update k v d\<close> (in place when the key is there, appended
  otherwise), \<open>d.pop(k)\<close> removes the key, \<open>d[k]\<close> raises \<open>KeyError\<close> on a missing key.
\<close>

type_synonym 'v pydict = "(string \<times> 'v) list"

text \<open>
  The messages of the three \<open>ImageParseError\<close>s the source raises: the hostname check of
  \<open>get_image_manifest\<close> (image hostname, repository hostname), and the two failures of
  \<open>Image.from_path\<close> (the path; the path and the list \<open>matches\<close> that the message prints).
\<close>

datatype parse_error_msg =
    HostnameMismatch string string
  | TooManyInterpretations string "string pydict list"
  | CannotParse string

text \<open>
  What \<open>requests.get\<close> can raise: \<open>ConnectionError\<close> stands for
  \<open>requests.ConnectionError\<close> and its subclasses, \<open>OtherRequestException\<close> for every other
  exception of the call.
\<close>

datatype requests_exception = ConnectionError | OtherRequestException

text \<open>
  The exceptions that can leave the functions modelled here; \<open>JSONDecodeError\<close> is the
  failure of \<open>Response.json()\<close>.
\<close>

datatype error =
    ImageParseError parse_error_msg
  | KeyError string
  | AttributeError
  | TypeError
  | JSONDecodeError
  | Requests requests_exception

definition getitem :: "'v pydict \<Rightarrow> string \<Rightarrow> error + 'v" where
  "getitem d k = (case map_of d k of None \<Rightarrow> Inl (KeyError k) | Some v \<Rightarrow> Inr v)"

definition dict_update :: "'v pydict \<Rightarrow> 'v pydict \<Rightarrow> 'v pydict" where
  "dict_update d fill = foldl (\<lambda>acc (k, v). AList.update k v acc) d fill"

subsection \<open>The regular expressions of \<open>Image.from_path\<close>\<close>

text \<open>
  The fragment of Python's \<open>re\<close> syntax that the source uses: \<open>^\<close>, \<open>$\<close>, an escaped or
  plain literal character, a character class under \<open>{1,}\<close>, concatenation, alternation
  \<open>(?:a|b)\<close>, lookahead \<open>(?=r)\<close>, lookbehind \<open>(?<=r)\<close> and a named group \<open>(?P<n>r)\<close>.
\<close>

datatype cls = Range char char | One char

fun in_cls :: "char \<Rightarrow> cls \<Rightarrow> bool" where
  "in_cls c (Range lo hi) = ((of_char lo :: nat) \<le> of_char c \<and> (of_char c :: nat) \<le> of_char hi)"
| "in_cls c (One d) = (c = d)"

definition in_class :: "cls list \<Rightarrow> char \<Rightarrow> bool" where
  "in_class cl c = list_ex (in_cls c) cl"

datatype regex =
    Bol
  | Eol
  | Chr char
  | Rep1 "cls list"
  | Cat regex regex
  | Alt regex regex
  | Ahead regex
  | Behind regex
  | Grp string regex

text \<open>
  A matcher state: the text consumed so far (reversed), the text still to read, and the
  named groups closed so far.
\<close>

type_synonym mstate = "string \<times> string \<times> string pydict"

text \<open>
  The width of a lookbehind body, as \<open>re\<close> computes it when it compiles the pattern; a
  body without a fixed width is rejected by \<open>re.compile\<close>.
\<close>

fun width :: "regex \<Rightarrow> nat option" where
  "width Bol = Some 0"
| "width Eol = Some 0"
| "width (Chr c) = Some 1"
| "width (Rep1 cl) = None"
| "width (Cat r1 r2) =
     (case (width r1, width r2) of (Some a, Some b) \<Rightarrow> Some (a + b) | _ \<Rightarrow> None)"
| "width (Alt r1 r2) =
     (case (width r1, width r2) of
        (Some a, Some b) \<Rightarrow> if a = b then Some a else None
      | _ \<Rightarrow> None)"
| "width (Ahead r) = Some 0"
| "width (Behind r) = Some 0"
| "width (Grp n r) = width r"

text \<open>
  Backtracking matching: \<open>run r st\<close> lists the states in which a match of \<open>r\<close> started in
  \<open>st\<close> can end, in the order in which the backtracking matcher of \<open>re\<close> tries them (a
  greedy repetition tries the longest run first, an alternation its left branch first).
  Without the \<open>MULTILINE\<close> flag \<open>^\<close> matches at the start of the string only, and \<open>$\<close>
  matches at the end of the string and before a newline that ends the string.
\<close>

fun run :: "regex \<Rightarrow> mstate \<Rightarrow> mstate list" where
  "run Bol (b, s, g) = (if b = [] then [(b, s, g)] else [])"
| "run Eol (b, s, g) = (if s = [] \<or> s = [CHR 0x0A] then [(b, s, g)] else [])"
| "run (Chr c) (b, s, g) =
     (case s of [] \<Rightarrow> [] | x # xs \<Rightarrow> if x = c then [(x # b, xs, g)] else [])"
| "run (Rep1 cl) (b, s, g) =
     map (\<lambda>n. (rev (take n s) @ b, drop n s, g))
       (rev [1 ..< Suc (length (takeWhile (in_class cl) s))])"
| "run (Cat r1 r2) st = concat (map (run r2) (run r1 st))"
| "run (Alt r1 r2) st = run r1 st @ run r2 st"
| "run (Ahead r) st = (if run r st = [] then [] else [st])"
| "run (Behind r) (b, s, g) =
     (case width r of
        None \<Rightarrow> []
      | Some w \<Rightarrow>
          if w \<le> length b \<and>
             list_ex (\<lambda>(b', s', g'). s' = s) (run r (drop w b, rev (take w b) @ s, g))
          then [(b, s, g)] else [])"
| "run (Grp n r) (b, s, g) =
     map (\<lambda>(b', s', g'). (b', s', AList.update n (rev (take (length b' - length b) b')) g'))
       (run r (b, s, g))"

text \<open>
  \<open>regex.match(path)\<close> followed by \<open>match.groupdict()\<close>: the groups of the first successful
  match that starts at the first character, or \<open>None\<close>.
\<close>

definition re_match :: "regex \<Rightarrow> string \<Rightarrow> string pydict option" where
  "re_match r path =
     (case run r ([], path, []) of [] \<Rightarrow> None | (b, s, g) # _ \<Rightarrow> Some g)"

definition build_re :: "regex list \<Rightarrow> regex" where
  "build_re parts = Cat Bol (foldr Cat parts Eol)"

definition alnum :: "cls list" where
  "alnum = [Range CHR ''a'' CHR ''z'', Range CHR ''A'' CHR ''Z'', Range CHR ''0'' CHR ''9'']"

definition hostname_re :: regex where
  "hostname_re = Grp ''hostname''
     (Cat (Behind Bol)
       (Cat (Rep1 (alnum @ [One CHR ''_'', One CHR ''-'']))
         (Cat (Chr CHR ''.'')
           (Cat (Rep1 (alnum @ [One CHR ''.'', One CHR ''_'', One CHR ''-'', One CHR '':'']))
             (Ahead (Chr CHR ''/''))))))"

definition docker_username_re :: regex where
  "docker_username_re = Grp ''username''
     (Cat (Behind Bol) (Cat (Rep1 alnum) (Ahead (Chr CHR ''/''))))"

definition username_re :: regex where
  "username_re = Grp ''username''
     (Cat (Behind (Chr CHR ''/''))
       (Cat (Rep1 (alnum @ [One CHR ''.'', One CHR ''_'', One CHR ''-'']))
         (Ahead (Chr CHR ''/''))))"

definition docker_image_re :: regex where
  "docker_image_re = Grp ''image''
     (Cat (Alt (Behind (Chr CHR ''/'')) (Behind Bol))
       (Cat (Rep1 (alnum @ [One CHR ''.'', One CHR ''_'', One CHR ''-'']))
         (Alt (Ahead (Chr CHR '':'')) (Alt (Ahead (Chr CHR ''@'')) (Ahead Eol)))))"

definition image_re :: regex where
  "image_re = Grp ''image''
     (Cat (Alt (Behind (Chr CHR ''/'')) (Behind Bol))
       (Cat (Rep1 (alnum @ [One CHR ''.'', One CHR ''_'', One CHR ''-'', One CHR ''/'']))
         (Alt (Ahead (Chr CHR '':'')) (Alt (Ahead (Chr CHR ''@'')) (Ahead Eol)))))"

definition sha_re :: regex where
  "sha_re = Grp ''tag''
     (Cat (Behind (Chr CHR ''@''))
       (Cat (Rep1 (alnum @ [One CHR ''.'', One CHR ''_'', One CHR ''-'', One CHR '':'']))
         (Ahead Eol)))"

definition tag_re :: regex where
  "tag_re = Grp ''tag''
     (Cat (Behind (Chr CHR '':''))
       (Cat (Rep1 (alnum @ [One CHR ''.'', One CHR ''_'', One CHR ''-''])) (Ahead Eol)))"

text \<open>The list of pairs (regex, defaults to fill in case of match), in the source's order.\<close>

definition regexes :: "(regex \<times> string pydict) list" where
  "regexes =
    [ (build_re [docker_image_re],
       [(''hostname'', ''registry-1.docker.io''), (''username'', ''library''),
        (''tag'', ''latest'')]),
      (build_re [docker_username_re, Chr CHR ''/'', docker_image_re],
       [(''hostname'', ''registry-1.docker.io''), (''tag'', ''latest'')]),
      (build_re [docker_image_re, Chr CHR '':'', tag_re],
       [(''hostname'', ''registry-1.docker.io''), (''username'', ''library'')]),
      (build_re [docker_username_re, Chr CHR ''/'', docker_image_re, Chr CHR '':'', tag_re],
       [(''hostname'', ''registry-1.docker.io'')]),
      (build_re [docker_image_re, Chr CHR ''@'', sha_re],
       [(''hostname'', ''registry-1.docker.io''), (''username'', ''library'')]),
      (build_re [docker_username_re, Chr CHR ''/'', docker_image_re, Chr CHR ''@'', sha_re],
       [(''hostname'', ''registry-1.docker.io'')]),
      (build_re [hostname_re, Chr CHR ''/'', username_re, Chr CHR ''/'', image_re],
       [(''tag'', ''latest'')]),
      (build_re [hostname_re, Chr CHR ''/'', username_re, Chr CHR ''/'', image_re,
                 Chr CHR '':'', tag_re],
       []),
      (build_re [hostname_re, Chr CHR ''/'', username_re, Chr CHR ''/'', image_re,
                 Chr CHR ''@'', sha_re],
       []) ]"

subsection \<open>\<open>Image\<close> and \<open>Image.from_path\<close>\<close>

text \<open>
  The two dataclasses. Both have a field \<open>hostname\<close>: \<open>hostname\<close> alone is the field of
  \<open>Image\<close>, the field of the repository API is written \<open>image_repo_docker_api.hostname\<close>.
\<close>

record image_repo_docker_api =
  hostname :: string
  oauth2_token :: "string option"

record image =
  hostname :: string
  name :: string
  tag :: string

text \<open>
  The body of the loop for one matching regex: fill in the defaults, lump the username in
  the image name, drop the username.
\<close>

definition candidate :: "string pydict \<Rightarrow> string pydict \<Rightarrow> error + string pydict" where
  "candidate groupdict fill =
     (let match_dict = dict_update groupdict fill in
      case getitem match_dict ''username'' of
        Inl e \<Rightarrow> Inl e
      | Inr u \<Rightarrow>
          (case getitem match_dict ''image'' of
             Inl e \<Rightarrow> Inl e
           | Inr i \<Rightarrow>
               Inr (AList.delete ''username'' (AList.update ''image'' (u @ ''/'' @ i) match_dict))))"

fun collect_matches ::
  "(regex \<times> string pydict) list \<Rightarrow> string \<Rightarrow> string pydict list \<Rightarrow> error + string pydict list"
where
  "collect_matches [] path matches = Inr matches"
| "collect_matches ((regex, fill) # rest) path matches =
     (case re_match regex path of
        None \<Rightarrow> collect_matches rest path matches
      | Some groupdict \<Rightarrow>
          (case candidate groupdict fill of
             Inl e \<Rightarrow> Inl e
           | Inr match_dict \<Rightarrow> collect_matches rest path (matches @ [match_dict])))"

definition make_image :: "string pydict \<Rightarrow> error + image" where
  "make_image m =
     (case getitem m ''hostname'' of
        Inl e \<Rightarrow> Inl e
      | Inr h \<Rightarrow>
          (case getitem m ''image'' of
             Inl e \<Rightarrow> Inl e
           | Inr i \<Rightarrow>
               (case getitem m ''tag'' of
                  Inl e \<Rightarrow> Inl e
                | Inr t \<Rightarrow> Inr \<lparr>hostname = h, name = i, tag = t\<rparr>)))"

definition from_path_with :: "(regex \<times> string pydict) list \<Rightarrow> string \<Rightarrow> error + image" where
  "from_path_with rs path =
     (case collect_matches rs path [] of
        Inl e \<Rightarrow> Inl e
      | Inr matches \<Rightarrow>
          if length matches = 1 then make_image (matches ! 0)
          else if length matches > 1
          then Inl (ImageParseError (TooManyInterpretations path matches))
          else Inl (ImageParseError (CannotParse path)))"

definition from_path :: "string \<Rightarrow> error + image" where
  "from_path path = from_path_with regexes path"

subsection \<open>Decoded JSON, requests and responses\<close>

text \<open>
  The Python value that \<open>Response.json()\<close> returns: \<open>None\<close> for \<open>null\<close>, a \<open>bool\<close>, an
  \<open>int\<close>, a \<open>float\<close> (its 64 bits), a \<open>str\<close>, a \<open>list\<close> or a \<open>dict\<close> with string keys.
\<close>

datatype pyval =
    PNone
  | PBool bool
  | PInt int
  | PFloat "64 word"
  | PStr string
  | PList "pyval list"
  | PDict "(string \<times> pyval) list"

text \<open>The truth value of \<open>if v:\<close>; a float is false when it is \<open>0.0\<close> or \<open>-0.0\<close>.\<close>

fun truthy :: "pyval \<Rightarrow> bool" where
  "truthy PNone = False"
| "truthy (PBool b) = b"
| "truthy (PInt n) = (n \<noteq> 0)"
| "truthy (PFloat w) = (take_bit 63 w \<noteq> 0)"
| "truthy (PStr s) = (s \<noteq> [])"
| "truthy (PList vs) = (vs \<noteq> [])"
| "truthy (PDict kvs) = (kvs \<noteq> [])"

text \<open>\<open>v.get(k, default)\<close>: only a \<open>dict\<close> has the method.\<close>

fun dict_get :: "pyval \<Rightarrow> string \<Rightarrow> pyval \<Rightarrow> error + pyval" where
  "dict_get (PDict kvs) k dflt = Inr (case map_of kvs k of None \<Rightarrow> dflt | Some v \<Rightarrow> v)"
| "dict_get _ k dflt = Inl AttributeError"

text \<open>
  \<open>base64.urlsafe_b64encode\<close> on the bytes of a string: three bytes give four characters
  of the URL-safe alphabet (\<open>-\<close> and \<open>_\<close> for the values 62 and 63), the last group is
  padded with \<open>=\<close>.
\<close>

definition b64_alphabet :: string where
  "b64_alphabet = ''ABCDEFGHIJKLMNOPQRSTUVWXYZabcdefghijklmnopqrstuvwxyz0123456789-_''"

definition b64_char :: "nat \<Rightarrow> char" where
  "b64_char n = b64_alphabet ! (n mod 64)"

fun b64_groups :: "nat list \<Rightarrow> string" where
  "b64_groups [] = []"
| "b64_groups [a] = [b64_char (a div 4), b64_char ((a mod 4) * 16), CHR ''='', CHR ''='']"
| "b64_groups [a, b] =
     [b64_char (a div 4), b64_char ((a mod 4) * 16 + b div 16), b64_char ((b mod 16) * 4),
      CHR ''='']"
| "b64_groups (a # b # c # rest) =
     [b64_char (a div 4), b64_char ((a mod 4) * 16 + b div 16),
      b64_char ((b mod 16) * 4 + c div 64), b64_char (c mod 64)] @ b64_groups rest"

definition urlsafe_b64encode :: "string \<Rightarrow> string" where
  "urlsafe_b64encode s = b64_groups (map of_char s)"

text \<open>
  The URLs the source builds with f-strings, by their parts: the manifest endpoint
  \<open>https://{hostname}/v2/{name}/manifests/{tag}\<close>, the blob endpoint
  \<open>https://{hostname}/v2/{name}/blobs/{config_digest}\<close>, and the realm taken from the
  challenge. The value of a header: a plain string, \<open>Basic {creds}\<close> or \<open>Bearer {token}\<close>,
  where the token is whatever value the f-string formats.
\<close>

datatype url =
    Manifests string string string
  | Blobs string string pyval
  | Address "string option"

datatype header_value =
    Plain string
  | BasicAuth string
  | BearerAuth pyval

record request =
  url :: url
  params :: "string option pydict"
  headers :: "header_value pydict"

text \<open>
  The \<open>Www-Authenticate\<close> header of a response, as the source reads it: the header is not
  there; the header is there and \<open>WWWAuthenticate.from_header\<close> returns \<open>None\<close> (an empty
  value); or the header is there and \<open>from_header\<close> returns a challenge with these
  parameters (a parameter without a value is \<open>None\<close>).
\<close>

datatype www_header = NoHeader | NoChallenge | Challenge "string option pydict"

text \<open>
  What the source reads of a response: \<open>status_code\<close>; the \<open>Www-Authenticate\<close> header;
  and the body as \<open>json()\<close> decodes it, \<open>None\<close> when the body is not a JSON document.
\<close>

record response =
  status_code :: int
  www_authenticate :: www_header
  json :: "pyval option"

text \<open>\<open>res.json()\<close> raises on a body that does not decode.\<close>

definition response_json :: "response \<Rightarrow> error + pyval" where
  "response_json res = (case json res of None \<Rightarrow> Inl JSONDecodeError | Some v \<Rightarrow> Inr v)"

text \<open>
  The network: given the requests sent so far and a request, \<open>requests.get\<close> raises or
  returns a response. Every function that talks to a registry takes the log of the
  requests sent so far and returns it extended.
\<close>

type_synonym network = "request list \<Rightarrow> request \<Rightarrow> requests_exception + response"

definition requests_get ::
  "network \<Rightarrow> request \<Rightarrow> request list \<Rightarrow> (requests_exception + response) \<times> request list"
where
  "requests_get net req log = (net log req, log @ [req])"

definition docker_v2 :: string where
  "docker_v2 = ''application/vnd.docker.distribution.manifest.v2+json''"

definition oci_v1 :: string where
  "oci_v1 = ''application/vnd.oci.image.manifest.v1+json''"

subsection \<open>\<open>ImageRepoDockerAPI\<close>\<close>

definition probe_request :: "image_repo_docker_api \<Rightarrow> image \<Rightarrow> request" where
  "probe_request self img =
     \<lparr>url = Manifests (image_repo_docker_api.hostname self) (name img) (tag img),
      params = [], headers = []\<rparr>"

definition token_headers :: "image_repo_docker_api \<Rightarrow> header_value pydict" where
  "token_headers self =
     (case oauth2_token self of
        None \<Rightarrow> [(''Accept'', Plain ''application/json'')]
      | Some t \<Rightarrow>
          if t = [] then [(''Accept'', Plain ''application/json'')]
          else AList.update ''Authorization''
                 (BasicAuth (urlsafe_b64encode (''oauth2:'' @ t)))
                 [(''Accept'', Plain ''application/json'')])"

definition token_request ::
  "image_repo_docker_api \<Rightarrow> string option pydict \<Rightarrow> string option \<Rightarrow> request" where
  "token_request self www_params realm =
     \<lparr>url = Address realm, params = AList.delete ''realm'' www_params,
      headers = token_headers self\<rparr>"

definition get_docker_token ::
  "network \<Rightarrow> image_repo_docker_api \<Rightarrow> image \<Rightarrow> request list \<Rightarrow> (error + pyval) \<times> request list"
where
  "get_docker_token net self img log =
     (case requests_get net (probe_request self img) log of
        (Inl e, log1) \<Rightarrow>
          if e = ConnectionError then (Inr PNone, log1) else (Inl (Requests e), log1)
      | (Inr auth_req, log1) \<Rightarrow>
          (case www_authenticate auth_req of
             NoHeader \<Rightarrow> (Inr PNone, log1)
           | NoChallenge \<Rightarrow>
               if status_code auth_req \<noteq> 401 then (Inr PNone, log1)
               else (Inl AttributeError, log1)
           | Challenge www_params \<Rightarrow>
               if status_code auth_req \<noteq> 401 then (Inr PNone, log1)
               else
                 (case getitem www_params ''realm'' of
                    Inl e \<Rightarrow> (Inl e, log1)
                  | Inr realm \<Rightarrow>
                      (case requests_get net (token_request self www_params realm) log1 of
                         (Inl e, log2) \<Rightarrow> (Inl (Requests e), log2)
                       | (Inr token_req, log2) \<Rightarrow>
                           (case response_json token_req of
                              Inl e \<Rightarrow> (Inl e, log2)
                            | Inr body \<Rightarrow> (dict_get body ''token'' PNone, log2))))))"

text \<open>
  The specification names the failure on a malformed challenge \<open>AuthenticationRejected\<close>.
  The source has no exception class of that name: a challenge that cannot be used leaves
  \<open>_get_docker_token\<close> as the \<open>KeyError\<close> of \<open>params.pop("realm")\<close> or as the
  \<open>AttributeError\<close> of \<open>www_auth.parameters\<close>. These two exceptions are that failure.
\<close>

definition authentication_rejected :: "error \<Rightarrow> bool" where
  "authentication_rejected e \<longleftrightarrow> e = KeyError ''realm'' \<or> e = AttributeError"

definition manifest_headers :: "pyval \<Rightarrow> string \<Rightarrow> header_value pydict" where
  "manifest_headers token accept =
     AList.update ''Accept'' (Plain accept)
       (if truthy token
        then AList.update ''Authorization'' (BearerAuth token) [(''Accept'', Plain docker_v2)]
        else [(''Accept'', Plain docker_v2)])"

definition manifest_request :: "image \<Rightarrow> pyval \<Rightarrow> string \<Rightarrow> request" where
  "manifest_request img token accept =
     \<lparr>url = Manifests (hostname img) (name img) (tag img),
      params = [], headers = manifest_headers token accept\<rparr>"

text \<open>The end of \<open>get_image_manifest\<close> and of \<open>get_image_config\<close>, on the last response.\<close>

definition json_if_200 :: "response \<Rightarrow> error + pyval" where
  "json_if_200 res = (if status_code res \<noteq> 200 then Inr PNone else response_json res)"

definition get_image_manifest ::
  "network \<Rightarrow> image_repo_docker_api \<Rightarrow> image \<Rightarrow> request list \<Rightarrow> (error + pyval) \<times> request list"
where
  "get_image_manifest net self img log =
     (if hostname img \<noteq> image_repo_docker_api.hostname self
      then (Inl (ImageParseError
                  (HostnameMismatch (hostname img) (image_repo_docker_api.hostname self))),
            log)
      else
        (case get_docker_token net self img log of
           (Inl e, log1) \<Rightarrow> (Inl e, log1)
         | (Inr token, log1) \<Rightarrow>
             (case requests_get net (manifest_request img token docker_v2) log1 of
                (Inl e, log2) \<Rightarrow> (Inl (Requests e), log2)
              | (Inr res, log2) \<Rightarrow>
                  if status_code res \<noteq> 200
                  then
                    (case requests_get net (manifest_request img token oci_v1) log2 of
                       (Inl e, log3) \<Rightarrow> (Inl (Requests e), log3)
                     | (Inr res', log3) \<Rightarrow> (json_if_200 res', log3))
                  else (json_if_200 res, log2))))"

definition image_exists ::
  "network \<Rightarrow> image_repo_docker_api \<Rightarrow> image \<Rightarrow> request list \<Rightarrow> (error + bool) \<times> request list"
where
  "image_exists net self img log =
     (case get_image_manifest net self img log of
        (Inl e, log1) \<Rightarrow> (Inl e, log1)
      | (Inr manifest, log1) \<Rightarrow> (Inr (manifest \<noteq> PNone), log1))"

definition blob_request :: "image \<Rightarrow> pyval \<Rightarrow> pyval \<Rightarrow> request" where
  "blob_request img config_digest token =
     \<lparr>url = Blobs (hostname img) (name img) config_digest,
      params = [],
      headers = [(''Accept'', Plain ''application/json''), (''Authorization'', BearerAuth token)]\<rparr>"

definition get_image_config ::
  "network \<Rightarrow> image_repo_docker_api \<Rightarrow> image \<Rightarrow> request list \<Rightarrow> (error + pyval) \<times> request list"
where
  "get_image_config net self img log =
     (case get_image_manifest net self img log of
        (Inl e, log1) \<Rightarrow> (Inl e, log1)
      | (Inr manifest, log1) \<Rightarrow>
          if manifest = PNone then (Inr PNone, log1)
          else
            (case dict_get manifest ''config'' (PDict []) of
               Inl e \<Rightarrow> (Inl e, log1)
             | Inr config \<Rightarrow>
                 (case dict_get config ''digest'' PNone of
                    Inl e \<Rightarrow> (Inl e, log1)
                  | Inr config_digest \<Rightarrow>
                      if config_digest = PNone then (Inr PNone, log1)
                      else
                        (case get_docker_token net self img log1 of
                           (Inl e, log2) \<Rightarrow> (Inl e, log2)
                         | (Inr token, log2) \<Rightarrow>
                             (case requests_get net (blob_request img config_digest token) log2 of
                                (Inl e, log3) \<Rightarrow> (Inl (Requests e), log3)
                              | (Inr res, log3) \<Rightarrow> (json_if_200 res, log3))))))"

text \<open>
  \<open>Path(workdir)\<close>: \<open>pathlib\<close> accepts a \<open>str\<close> and raises \<open>TypeError\<close> on the other values a
  JSON document can hold. The path is kept as the string it was built from.
\<close>

datatype path = Path string

fun make_path :: "pyval \<Rightarrow> error + path" where
  "make_path (PStr s) = Inr (Path s)"
| "make_path _ = Inl TypeError"

definition image_workdir ::
  "network \<Rightarrow> image_repo_docker_api \<Rightarrow> image \<Rightarrow> request list
     \<Rightarrow> (error + path option) \<times> request list"
where
  "image_workdir net self img log =
     (case get_image_config net self img log of
        (Inl e, log1) \<Rightarrow> (Inl e, log1)
      | (Inr config, log1) \<Rightarrow>
          if config = PNone then (Inr None, log1)
          else
            (case dict_get config ''config'' (PDict []) of
               Inl e \<Rightarrow> (Inl e, log1)
             | Inr nested_config \<Rightarrow>
                 if nested_config = PNone then (Inr None, log1)
                 else
                   (case dict_get nested_config ''WorkingDir'' (PStr ''/'') of
                      Inl e \<Rightarrow> (Inl e, log1)
                    | Inr workdir \<Rightarrow>
                        (case make_path (if workdir = PStr [] then PStr ''/'' else workdir) of
                           Inl e \<Rightarrow> (Inl e, log1)
                         | Inr p \<Rightarrow> (Inr (Some p), log1)))))"

text \<open>
  \<open>with_oauth2_token\<close> builds a new object. The objects live in a store, a map from
  references to the fields of each object; \<open>next_ref\<close> is the first reference not yet given
  out, so a new object never takes the place of one that exists.
\<close>

record store =
  objects :: "nat \<Rightarrow> image_repo_docker_api option"
  next_ref :: nat

definition new_object :: "store \<Rightarrow> image_repo_docker_api \<Rightarrow> nat \<times> store" where
  "new_object st v =
     (next_ref st, st\<lparr>objects := (objects st)(next_ref st \<mapsto> v), next_ref := Suc (next_ref st)\<rparr>)"

definition with_oauth2_token_fields :: "image_repo_docker_api \<Rightarrow> string \<Rightarrow> image_repo_docker_api"
where
  "with_oauth2_token_fields self token =
     \<lparr>image_repo_docker_api.hostname = image_repo_docker_api.hostname self,
      oauth2_token = Some token\<rparr>"

definition with_oauth2_token :: "store \<Rightarrow> nat \<Rightarrow> string \<Rightarrow> (nat \<times> store) option" where
  "with_oauth2_token st self token =
     (case objects st self of
        None \<Rightarrow> None
      | Some obj \<Rightarrow> Some (new_object st (with_oauth2_token_fields obj token)))"

definition repo_api :: "image \<Rightarrow> image_repo_docker_api" where
  "repo_api self = \<lparr>image_repo_docker_api.hostname = hostname self, oauth2_token = None\<rparr>"

subsection \<open>Concrete registries and objects\<close>

text \<open>
  A scripted network answers the n-th request sent with the n-th entry of a list, and
  raises \<open>ConnectionError\<close> once the list is used up.
\<close>

definition scripted :: "(requests_exception + response) list \<Rightarrow> network" where
  "scripted rs log req = (if length log < length rs then rs ! length log else Inl ConnectionError)"

definition plain_response :: "int \<Rightarrow> pyval option \<Rightarrow> response" where
  "plain_response code body = \<lparr>status_code = code, www_authenticate = NoHeader, json = body\<rparr>"

definition empty_challenge_response :: response where
  "empty_challenge_response =
     \<lparr>status_code = 401, www_authenticate = NoChallenge, json = None\<rparr>"

definition challenge_response :: "string option pydict \<Rightarrow> response" where
  "challenge_response www_params =
     \<lparr>status_code = 401, www_authenticate = Challenge www_params, json = None\<rparr>"

definition example_image :: image where
  "example_image =
     \<lparr>hostname = ''registry.example.com'', name = ''group/project'', tag = ''1.0''\<rparr>"

definition example_api :: image_repo_docker_api where
  "example_api = repo_api example_image"

definition docker_hub_api :: image_repo_docker_api where
  "docker_hub_api =
     \<lparr>image_repo_docker_api.hostname = ''registry-1.docker.io'', oauth2_token = None\<rparr>"

definition example_store :: store where
  "example_store = \<lparr>objects = Map.empty(0 \<mapsto> example_api), next_ref = 1\<rparr>"

definition example_manifest :: pyval where
  "example_manifest =
     PDict [(''schemaVersion'', PInt 2),
            (''config'', PDict [(''digest'', PStr ''sha256:c0ffee'')])]"

definition example_config :: pyval where
  "example_config =
     PDict [(''architecture'', PStr ''amd64''),
            (''config'', PDict [(''WorkingDir'', PStr ''/home/jovyan'')])]"

definition example_challenge :: "string option pydict" where
  "example_challenge =
     [(''realm'', Some ''https://auth.example.com/token''),
      (''service'', Some ''registry''),
      (''scope'', Some ''repository:group/project:pull'')]"

definition unreachable_then_404 :: network where
  "unreachable_then_404 =
     scripted [Inl ConnectionError, Inr (plain_response 404 None), Inr (plain_response 404 None)]"

definition private_api :: image_repo_docker_api where
  "private_api = with_oauth2_token_fields example_api ''abc''"

definition challenge_then_403 :: network where
  "challenge_then_403 =
     scripted [Inr (challenge_response example_challenge),
               Inr (plain_response 403 (Some (PDict [])))]"

definition challenge_then_500_token :: network where
  "challenge_then_500_token =
     scripted [Inr (challenge_response example_challenge),
               Inr (plain_response 500 (Some (PDict [(''token'', PStr ''t0k'')])))]"

definition open_registry_v2 :: network where
  "open_registry_v2 =
     scripted [Inr (plain_response 200 (Some example_manifest)),
               Inr (plain_response 200 (Some example_manifest))]"

definition open_registry_oci_only :: network where
  "open_registry_oci_only =
     scripted [Inr (plain_response 404 None), Inr (plain_response 404 None),
               Inr (plain_response 200 (Some example_manifest))]"

definition open_registry_absent :: network where
  "open_registry_absent =
     scripted [Inr (plain_response 404 None), Inr (plain_response 404 None),
               Inr (plain_response 404 None)]"

definition open_registry_null_body :: network where
  "open_registry_null_body =
     scripted [Inr (plain_response 200 (Some PNone)), Inr (plain_response 200 (Some PNone))]"

definition token_response :: response where
  "token_response = plain_response 200 (Some (PDict [(''token'', PStr ''t0k'')]))"

definition private_registry :: "response \<Rightarrow> network" where
  "private_registry blob =
     scripted [Inr (challenge_response example_challenge), Inr token_response,
               Inr (plain_response 200 (Some example_manifest)),
               Inr (challenge_response example_challenge), Inr token_response,
               Inr blob]"

definition private_log :: "request list" where
  "private_log =
     [probe_request private_api example_image,
      token_request private_api example_challenge (Some ''https://auth.example.com/token''),
      manifest_request example_image (PStr ''t0k'') docker_v2,
      probe_request private_api example_image,
      token_request private_api example_challenge (Some ''https://auth.example.com/token''),
      blob_request example_image (PStr ''sha256:c0ffee'') (PStr ''t0k'')]"

subsection \<open>Grammars and their readings\<close>

text \<open>
  The grammars of the table whose regex matches a path, in the order of the table: those
  for which \<open>regex.match(path)\<close> is not \<open>None\<close>.
\<close>

definition matching_grammars :: "string \<Rightarrow> (regex \<times> string pydict) list" where
  "matching_grammars path = filter (\<lambda>(r, fill). re_match r path \<noteq> None) regexes"

text \<open>
  The reading of a path by a grammar, defaults applied: a field is the default of the
  grammar when it has one (the last one given for the key) and the matched group
  otherwise; the username is folded into the name of the image.
\<close>

definition filled :: "string pydict \<Rightarrow> string pydict \<Rightarrow> string \<Rightarrow> string option" where
  "filled groupdict fill k =
     (case map_of (rev fill) k of Some v \<Rightarrow> Some v | None \<Rightarrow> map_of groupdict k)"

definition reading :: "string pydict \<Rightarrow> string pydict \<Rightarrow> image option" where
  "reading groupdict fill =
     (case (filled groupdict fill ''hostname'', filled groupdict fill ''username'',
            filled groupdict fill ''image'', filled groupdict fill ''tag'') of
        (Some h, Some u, Some i, Some t) \<Rightarrow> Some \<lparr>hostname = h, name = u @ ''/'' @ i, tag = t\<rparr>
      | _ \<Rightarrow> None)"

text \<open>The named groups that every successful match of a regex has closed.\<close>

fun binds :: "regex \<Rightarrow> string set" where
  "binds (Grp n r) = insert n (binds r)"
| "binds (Cat r1 r2) = binds r1 \<union> binds r2"
| "binds (Alt r1 r2) = binds r1 \<inter> binds r2"
| "binds _ = {}"







subsection \<open>The regexes read as deterministic tokenisers\<close>

text \<open>The character classes of the regexes, by name.\<close>

abbreviation host_head_chars :: "cls list" where
  "host_head_chars \<equiv> alnum @ [One CHR ''_'', One CHR ''-'']"

abbreviation host_tail_chars :: "cls list" where
  "host_tail_chars \<equiv> alnum @ [One CHR ''.'', One CHR ''_'', One CHR ''-'', One CHR '':'']"

abbreviation name_chars :: "cls list" where
  "name_chars \<equiv> alnum @ [One CHR ''.'', One CHR ''_'', One CHR ''-'']"

abbreviation path_chars :: "cls list" where
  "path_chars \<equiv> alnum @ [One CHR ''.'', One CHR ''_'', One CHR ''-'', One CHR ''/'']"

text \<open>
  A regex is deterministic when every run of it ends in at most one state; \<open>det r f\<close> says
  that \<open>f\<close> computes that state. Every part of the nine regexes is deterministic: a
  repetition is always followed by something that no character of its class can start, so
  only the longest run can go on.
\<close>

definition det :: "regex \<Rightarrow> (mstate \<Rightarrow> mstate option) \<Rightarrow> bool" where
  "det r f \<longleftrightarrow> (\<forall>st. run r st = (case f st of None \<Rightarrow> [] | Some st' \<Rightarrow> [st']))"

text \<open>The steps for \<open>^\<close>, \<open>$\<close> and a literal character.\<close>

definition step_Bol :: "mstate \<Rightarrow> mstate option" where
  "step_Bol = (\<lambda>(b, s, g). if b = [] then Some (b, s, g) else None)"

definition step_Eol :: "mstate \<Rightarrow> mstate option" where
  "step_Eol = (\<lambda>(b, s, g). if s = [] \<or> s = [CHR 0x0A] then Some (b, s, g) else None)"

definition step_Chr :: "char \<Rightarrow> mstate \<Rightarrow> mstate option" where
  "step_Chr c = (\<lambda>(b, s, g). case s of [] \<Rightarrow> None | x # xs \<Rightarrow> if x = c then Some (x # b, xs, g) else None)"

text \<open>
  The step for a named group that holds a lookbehind, one repetition and a lookahead: the
  longest run of characters of the class, when the text before satisfies \<open>lead\<close>, the run
  is not empty and the text after satisfies \<open>follow\<close>.
\<close>

definition group_step ::
  "string \<Rightarrow> cls list \<Rightarrow> (string \<Rightarrow> bool) \<Rightarrow> (string \<Rightarrow> bool) \<Rightarrow> mstate \<Rightarrow> mstate option" where
  "group_step n cl lead follow =
     (\<lambda>(b, s, g).
        if lead b \<and> takeWhile (in_class cl) s \<noteq> [] \<and> follow (dropWhile (in_class cl) s)
        then Some (rev (takeWhile (in_class cl) s) @ b, dropWhile (in_class cl) s,
                   AList.update n (takeWhile (in_class cl) s) g)
        else None)"

text \<open>The lookbehinds and lookaheads of the source, as conditions.\<close>

definition at_start :: "string \<Rightarrow> bool" where
  "at_start b \<longleftrightarrow> b = []"

definition after :: "char \<Rightarrow> string \<Rightarrow> bool" where
  "after c b \<longleftrightarrow> b \<noteq> [] \<and> hd b = c"

definition start_or_after :: "char \<Rightarrow> string \<Rightarrow> bool" where
  "start_or_after c b \<longleftrightarrow> b = [] \<or> hd b = c"

definition before :: "char \<Rightarrow> string \<Rightarrow> bool" where
  "before c s \<longleftrightarrow> s \<noteq> [] \<and> hd s = c"

definition at_end :: "string \<Rightarrow> bool" where
  "at_end s \<longleftrightarrow> s = [] \<or> s = [CHR 0x0A]"

definition image_end :: "string \<Rightarrow> bool" where
  "image_end s \<longleftrightarrow> before CHR '':'' s \<or> before CHR ''@'' s \<or> at_end s"

text \<open>The steps of a list of parts, one after the other, closed by \<open>$\<close>.\<close>

fun chain :: "(mstate \<Rightarrow> mstate option) list \<Rightarrow> mstate \<Rightarrow> mstate option" where
  "chain [] st = step_Eol st"
| "chain (f # fs) st = Option.bind (f st) (chain fs)"

text \<open>The step for the group \<open>hostname\<close>: two runs with a dot between them.\<close>

definition step_hostname :: "mstate \<Rightarrow> mstate option" where
  "step_hostname =
     (\<lambda>(b, s, g).
        if b = [] \<and> takeWhile (in_class host_head_chars) s \<noteq> []
           \<and> before CHR ''.'' (dropWhile (in_class host_head_chars) s)
           \<and> takeWhile (in_class host_tail_chars) (tl (dropWhile (in_class host_head_chars) s)) \<noteq> []
           \<and> before CHR ''/''
                (dropWhile (in_class host_tail_chars) (tl (dropWhile (in_class host_head_chars) s)))
        then Some
          (rev (takeWhile (in_class host_head_chars) s @ CHR ''.'' #
                  takeWhile (in_class host_tail_chars) (tl (dropWhile (in_class host_head_chars) s)))
             @ b,
           dropWhile (in_class host_tail_chars) (tl (dropWhile (in_class host_head_chars) s)),
           AList.update ''hostname''
             (takeWhile (in_class host_head_chars) s @ CHR ''.'' #
                takeWhile (in_class host_tail_chars) (tl (dropWhile (in_class host_head_chars) s)))
             g)
        else None)"

text \<open>A non-empty string over a class, and a condition no character of a class can start.\<close>

definition word :: "cls list \<Rightarrow> string \<Rightarrow> bool" where
  "word cl w \<longleftrightarrow> w \<noteq> [] \<and> (\<forall>c\<in>set w. in_class cl c)"

definition excludes :: "cls list \<Rightarrow> (string \<Rightarrow> bool) \<Rightarrow> bool" where
  "excludes cl follow \<longleftrightarrow> (\<forall>c rest. in_class cl c \<longrightarrow> \<not> follow (c # rest))"

text \<open>The steps of the six groups with one repetition.\<close>

abbreviation tok_docker_username :: "mstate \<Rightarrow> mstate option" where
  "tok_docker_username \<equiv> group_step ''username'' alnum at_start (before CHR ''/'')"

abbreviation tok_username :: "mstate \<Rightarrow> mstate option" where
  "tok_username \<equiv> group_step ''username'' name_chars (after CHR ''/'') (before CHR ''/'')"

abbreviation tok_docker_image :: "mstate \<Rightarrow> mstate option" where
  "tok_docker_image \<equiv> group_step ''image'' name_chars (start_or_after CHR ''/'') image_end"

abbreviation tok_image :: "mstate \<Rightarrow> mstate option" where
  "tok_image \<equiv> group_step ''image'' path_chars (start_or_after CHR ''/'') image_end"

abbreviation tok_sha :: "mstate \<Rightarrow> mstate option" where
  "tok_sha \<equiv> group_step ''tag'' host_tail_chars (after CHR ''@'') at_end"

abbreviation tok_tag :: "mstate \<Rightarrow> mstate option" where
  "tok_tag \<equiv> group_step ''tag'' name_chars (after CHR '':'') at_end"

text \<open>
  The only grammar of the table that can match a path, numbered from 1 in the order of
  the table: it is decided by the number of slashes, by the presence of \<open>@\<close>, and by the
  presence of a colon (after the first slash, when there are two slashes or more).
\<close>

definition kind :: "string \<Rightarrow> nat" where
  "kind path =
     (if count_list path CHR ''/'' = 0
      then (if CHR ''@'' \<in> set path then 5 else if CHR '':'' \<in> set path then 3 else 1)
      else if count_list path CHR ''/'' = 1
      then (if CHR ''@'' \<in> set path then 6 else if CHR '':'' \<in> set path then 4 else 2)
      else (if CHR ''@'' \<in> set path then 9
            else if CHR '':'' \<in> set (dropWhile (\<lambda>c. c \<noteq> CHR ''/'') path) then 8 else 7))"

text \<open>The nine regexes of the table.\<close>

abbreviation rx1 :: regex where "rx1 \<equiv> build_re [docker_image_re]"

abbreviation rx2 :: regex where
  "rx2 \<equiv> build_re [docker_username_re, Chr CHR ''/'', docker_image_re]"

abbreviation rx3 :: regex where "rx3 \<equiv> build_re [docker_image_re, Chr CHR '':'', tag_re]"

abbreviation rx4 :: regex where
  "rx4 \<equiv> build_re [docker_username_re, Chr CHR ''/'', docker_image_re, Chr CHR '':'', tag_re]"

abbreviation rx5 :: regex where "rx5 \<equiv> build_re [docker_image_re, Chr CHR ''@'', sha_re]"

abbreviation rx6 :: regex where
  "rx6 \<equiv> build_re [docker_username_re, Chr CHR ''/'', docker_image_re, Chr CHR ''@'', sha_re]"

abbreviation rx7 :: regex where
  "rx7 \<equiv> build_re [hostname_re, Chr CHR ''/'', username_re, Chr CHR ''/'', image_re]"

abbreviation rx8 :: regex where
  "rx8 \<equiv> build_re [hostname_re, Chr CHR ''/'', username_re, Chr CHR ''/'', image_re,
                    Chr CHR '':'', tag_re]"

abbreviation rx9 :: regex where
  "rx9 \<equiv> build_re [hostname_re, Chr CHR ''/'', username_re, Chr CHR ''/'', image_re,
                    Chr CHR ''@'', sha_re]"

text \<open>
  The shape of every image that \<open>from_path\<close> returns: a hostname with a dot, a name with a
  username and a slash, and a tag over the characters of a digest.
\<close>

definition well_formed :: "image \<Rightarrow> bool" where
  "well_formed img \<longleftrightarrow>
     (\<exists>h1 h2 u i. hostname img = h1 @ CHR ''.'' # h2 \<and> word host_head_chars h1
        \<and> word host_tail_chars h2 \<and> name img = u @ CHR ''/'' # i \<and> word name_chars u
        \<and> word path_chars i \<and> word host_tail_chars (tag img))"

text \<open>
  Modelled from the spec: the canonical string form of an image reference. The source has
  no function that prints an \<open>Image\<close>; the form is the grammar of the specification that
  needs no default, \<open>hostname/namespace/path:tag\<close> or \<open>hostname/namespace/path@digest\<close>.
  An \<open>Image\<close> keeps a tag and a digest in the same field, so \<open>canonical\<close> writes the
  value after \<open>@\<close> when it holds a colon, as a digest does and a tag cannot, and after
  \<open>:\<close> otherwise; \<open>canonical_with\<close> takes the separator as an argument.
\<close>

definition canonical_with :: "char \<Rightarrow> image \<Rightarrow> string" where
  "canonical_with sep img = hostname img @ ''/'' @ name img @ [sep] @ tag img"

definition canonical :: "image \<Rightarrow> string" where
  "canonical img =
     canonical_with (if CHR '':'' \<in> set (tag img) then CHR ''@'' else CHR '':'') img"

text \<open>Images and a table used as examples.\<close>

definition nginx_image :: image where
  "nginx_image =
     \<lparr>hostname = ''registry-1.docker.io'', name = ''library/nginx'', tag = ''latest''\<rparr>"

definition nginx_digest_image :: image where
  "nginx_digest_image =
     \<lparr>hostname = ''registry-1.docker.io'', name = ''library/nginx'', tag = ''sha256:abc''\<rparr>"


section \<open>Properties\<close>

subsection \<open>The exceptions of the registry client and the hostname check\<close>

lemma dict_get_error: "dict_get v k d = Inl e \<Longrightarrow> e = AttributeError"
  by (cases v) auto

lemma get_docker_token_error:
  "get_docker_token net self img log = (Inl e, log') \<Longrightarrow>
     e = KeyError ''realm'' \<or> e = JSONDecodeError \<or> e = AttributeError \<or> (\<exists>x. e = Requests x)"
  by (auto simp: get_docker_token_def requests_get_def getitem_def response_json_def
      split: sum.splits option.splits www_header.splits if_splits prod.splits
      dest: dict_get_error)

lemma get_docker_token_log:
  "\<exists>rest. snd (get_docker_token net self img log) = log @ probe_request self img # rest"
  by (auto simp: get_docker_token_def requests_get_def getitem_def response_json_def
      split: sum.splits option.splits www_header.splits if_splits prod.splits)

lemma json_if_200_error: "json_if_200 res = Inl e \<Longrightarrow> e = JSONDecodeError"
  by (auto simp: json_if_200_def response_json_def split: if_splits option.splits)

lemma get_image_manifest_error:
  "hostname img = image_repo_docker_api.hostname self \<Longrightarrow>
   get_image_manifest net self img log = (Inl e, log') \<Longrightarrow>
     e = KeyError ''realm'' \<or> e = JSONDecodeError \<or> e = AttributeError \<or> (\<exists>x. e = Requests x)"
  by (auto simp: get_image_manifest_def requests_get_def
      split: sum.splits if_splits prod.splits dest: get_docker_token_error json_if_200_error)

lemma get_image_config_error:
  "hostname img = image_repo_docker_api.hostname self \<Longrightarrow>
   get_image_config net self img log = (Inl e, log') \<Longrightarrow>
     e = KeyError ''realm'' \<or> e = JSONDecodeError \<or> e = AttributeError \<or> (\<exists>x. e = Requests x)"
  by (auto simp: get_image_config_def requests_get_def
      split: sum.splits if_splits prod.splits
      dest: get_docker_token_error json_if_200_error get_image_manifest_error dict_get_error)

lemma make_path_error: "make_path v = Inl e \<Longrightarrow> e = TypeError"
  by (cases v) auto

lemma image_workdir_error:
  "hostname img = image_repo_docker_api.hostname self \<Longrightarrow>
   image_workdir net self img log = (Inl e, log') \<Longrightarrow>
     e = KeyError ''realm'' \<or> e = JSONDecodeError \<or> e = AttributeError \<or> e = TypeError
     \<or> (\<exists>x. e = Requests x)"
  by (auto simp: image_workdir_def 
      split: sum.splits if_splits prod.splits
      dest: get_image_config_error dict_get_error make_path_error)

lemma image_exists_error:
  "hostname img = image_repo_docker_api.hostname self \<Longrightarrow>
   image_exists net self img log = (Inl e, log') \<Longrightarrow>
     e = KeyError ''realm'' \<or> e = JSONDecodeError \<or> e = AttributeError \<or> (\<exists>x. e = Requests x)"
  by (auto simp: image_exists_def split: sum.splits prod.splits dest: get_image_manifest_error)

lemma get_image_manifest_mismatch:
  "hostname img \<noteq> image_repo_docker_api.hostname self \<Longrightarrow>
   get_image_manifest net self img log =
     (Inl (ImageParseError (HostnameMismatch (hostname img) (image_repo_docker_api.hostname self))),
      log)"
  by (simp add: get_image_manifest_def)

lemma get_image_manifest_first_request:
  "hostname img = image_repo_docker_api.hostname self \<Longrightarrow>
   \<exists>rest. snd (get_image_manifest net self img log) = log @ probe_request self img # rest"
  using get_docker_token_log [of net self img log]
  by (auto simp: get_image_manifest_def requests_get_def split: sum.splits prod.splits)

text \<open>
  Claim C9. When the hostname of the image differs from the hostname of the repository API,
  \<open>get_image_manifest\<close>, and with it \<open>image_exists\<close> and \<open>image_workdir\<close>, raise
  \<open>ImageParseError\<close> and the log of requests is unchanged: no request has been sent. When
  the hostnames are equal none of the three raises \<open>ImageParseError\<close>, and the fetch starts:
  the first request sent goes to the manifest endpoint.
\<close>

theorem hostname_mismatch_raises_before_any_request:
  "(hostname img \<noteq> image_repo_docker_api.hostname self \<longrightarrow>
      get_image_manifest net self img log =
        (Inl (ImageParseError
               (HostnameMismatch (hostname img) (image_repo_docker_api.hostname self))), log)
      \<and> image_exists net self img log =
        (Inl (ImageParseError
               (HostnameMismatch (hostname img) (image_repo_docker_api.hostname self))), log)
      \<and> image_workdir net self img log =
        (Inl (ImageParseError
               (HostnameMismatch (hostname img) (image_repo_docker_api.hostname self))), log))
   \<and> (hostname img = image_repo_docker_api.hostname self \<longrightarrow>
      (\<forall>m. fst (get_image_manifest net self img log) \<noteq> Inl (ImageParseError m))
      \<and> (\<forall>m. fst (image_exists net self img log) \<noteq> Inl (ImageParseError m))
      \<and> (\<forall>m. fst (image_workdir net self img log) \<noteq> Inl (ImageParseError m))
      \<and> (\<exists>rest. snd (get_image_manifest net self img log) = log @ probe_request self img # rest))"
proof (intro conjI impI allI)
  assume ne: "hostname img \<noteq> image_repo_docker_api.hostname self"
  show "get_image_manifest net self img log =
        (Inl (ImageParseError
               (HostnameMismatch (hostname img) (image_repo_docker_api.hostname self))), log)"
    using ne by (rule get_image_manifest_mismatch)
  then show "image_exists net self img log =
        (Inl (ImageParseError
               (HostnameMismatch (hostname img) (image_repo_docker_api.hostname self))), log)"
    by (simp add: image_exists_def)
  show "image_workdir net self img log =
        (Inl (ImageParseError
               (HostnameMismatch (hostname img) (image_repo_docker_api.hostname self))), log)"
    using get_image_manifest_mismatch [OF ne, of net log]
    by (simp add: image_workdir_def get_image_config_def)
next
  fix m
  assume eq: "hostname img = image_repo_docker_api.hostname self"
  show "fst (get_image_manifest net self img log) \<noteq> Inl (ImageParseError m)"
    using get_image_manifest_error [OF eq, of net log "ImageParseError m"]
    by (cases "get_image_manifest net self img log") auto
  show "fst (image_exists net self img log) \<noteq> Inl (ImageParseError m)"
    using image_exists_error [OF eq, of net log "ImageParseError m"]
    by (cases "image_exists net self img log") auto
  show "fst (image_workdir net self img log) \<noteq> Inl (ImageParseError m)"
    using image_workdir_error [OF eq, of net log "ImageParseError m"]
    by (cases "image_workdir net self img log") auto
next
  assume eq: "hostname img = image_repo_docker_api.hostname self"
  show "\<exists>rest. snd (get_image_manifest net self img log) = log @ probe_request self img # rest"
    using eq by (rule get_image_manifest_first_request)
qed

text \<open>
  Claim C9 at concrete inputs: an image of \<open>registry.example.com\<close> asked of the API of
  \<open>registry-1.docker.io\<close>, and of its own API.
\<close>

theorem hostname_mismatch_raises_before_any_request_witness:
  "hostname example_image \<noteq> image_repo_docker_api.hostname docker_hub_api
   \<and> image_exists (scripted []) docker_hub_api example_image [] =
       (Inl (ImageParseError (HostnameMismatch ''registry.example.com'' ''registry-1.docker.io'')),
        [])
   \<and> hostname example_image = image_repo_docker_api.hostname example_api
   \<and> fst (image_exists (scripted []) example_api example_image []) \<noteq>
       Inl (ImageParseError (HostnameMismatch ''registry.example.com'' ''registry.example.com''))"
  using hostname_mismatch_raises_before_any_request
          [of example_image docker_hub_api "scripted []" "[]"]
        hostname_mismatch_raises_before_any_request
          [of example_image example_api "scripted []" "[]"]
  by (simp add: example_image_def docker_hub_api_def example_api_def repo_api_def)

subsection \<open>A new object for a new token\<close>

text \<open>
  Claim C10. For an object \<open>r\<close> of the store and a token \<open>t\<close>, \<open>r.with_oauth2_token(t)\<close>
  returns a reference to a new object, different from \<open>r\<close>, whose hostname is the hostname
  of \<open>r\<close> and whose \<open>oauth2_token\<close> is \<open>t\<close>; the fields of \<open>r\<close>, and every other object of
  the store, are what they were before the call.
\<close>

theorem with_oauth2_token_new_instance:
  assumes "objects st r = Some self" and "objects st (next_ref st) = None"
  shows "\<exists>r' st'. with_oauth2_token st r t = Some (r', st')
           \<and> r' \<noteq> r
           \<and> objects st' r' =
               Some \<lparr>image_repo_docker_api.hostname = image_repo_docker_api.hostname self,
                     oauth2_token = Some t\<rparr>
           \<and> objects st' r = Some self
           \<and> (\<forall>a. a \<noteq> r' \<longrightarrow> objects st' a = objects st a)"
  using assms
  by (auto simp: with_oauth2_token_def new_object_def with_oauth2_token_fields_def)

text \<open>
  Claim C10 at a concrete input: a store that holds one repository API, at reference 0.
\<close>

theorem with_oauth2_token_new_instance_witness:
  "objects example_store 0 = Some example_api
   \<and> objects example_store (next_ref example_store) = None
   \<and> fst (the (with_oauth2_token example_store 0 ''glpat-secret'')) = 1
   \<and> objects (snd (the (with_oauth2_token example_store 0 ''glpat-secret''))) 1 =
       Some \<lparr>image_repo_docker_api.hostname = ''registry.example.com'',
             oauth2_token = Some ''glpat-secret''\<rparr>
   \<and> objects (snd (the (with_oauth2_token example_store 0 ''glpat-secret''))) 0 =
       Some example_api"
  using with_oauth2_token_new_instance [of example_store 0 example_api "''glpat-secret''"]
  by (auto simp: example_store_def example_api_def repo_api_def example_image_def
        with_oauth2_token_def new_object_def with_oauth2_token_fields_def)

subsection \<open>The probe and the token exchange\<close>

lemma get_docker_token_probe_raises:
  "net log (probe_request self img) = Inl e \<Longrightarrow>
   get_docker_token net self img log =
     (if e = ConnectionError then Inr PNone else Inl (Requests e), log @ [probe_request self img])"
  by (simp add: get_docker_token_def requests_get_def)

lemma get_docker_token_no_challenge:
  "net log (probe_request self img) = Inr auth_req \<Longrightarrow>
   status_code auth_req \<noteq> 401 \<or> www_authenticate auth_req = NoHeader \<Longrightarrow>
   get_docker_token net self img log = (Inr PNone, log @ [probe_request self img])"
  by (auto simp: get_docker_token_def requests_get_def split: www_header.splits)

lemma get_docker_token_no_realm:
  "net log (probe_request self img) = Inr auth_req \<Longrightarrow> status_code auth_req = 401 \<Longrightarrow>
   www_authenticate auth_req = Challenge www_params \<Longrightarrow> map_of www_params ''realm'' = None \<Longrightarrow>
   get_docker_token net self img log = (Inl (KeyError ''realm''), log @ [probe_request self img])"
  by (simp add: get_docker_token_def requests_get_def getitem_def)

lemma get_docker_token_no_parse:
  "net log (probe_request self img) = Inr auth_req \<Longrightarrow> status_code auth_req = 401 \<Longrightarrow>
   www_authenticate auth_req = NoChallenge \<Longrightarrow>
   get_docker_token net self img log = (Inl AttributeError, log @ [probe_request self img])"
  by (simp add: get_docker_token_def requests_get_def)

lemma get_docker_token_exchange:
  "net log (probe_request self img) = Inr auth_req \<Longrightarrow> status_code auth_req = 401 \<Longrightarrow>
   www_authenticate auth_req = Challenge www_params \<Longrightarrow> map_of www_params ''realm'' = Some realm \<Longrightarrow>
   get_docker_token net self img log =
     (case net (log @ [probe_request self img]) (token_request self www_params realm) of
        Inl e \<Rightarrow> Inl (Requests e)
      | Inr token_req \<Rightarrow>
          (case response_json token_req of
             Inl e \<Rightarrow> Inl e
           | Inr body \<Rightarrow> dict_get body ''token'' PNone),
      log @ [probe_request self img, token_request self www_params realm])"
  by (simp add: get_docker_token_def requests_get_def getitem_def split: sum.splits)

lemma get_image_manifest_steps:
  "hostname img = image_repo_docker_api.hostname self \<Longrightarrow>
   get_docker_token net self img log = (Inr token, log1) \<Longrightarrow>
   get_image_manifest net self img log =
     (case net log1 (manifest_request img token docker_v2) of
        Inl e \<Rightarrow> (Inl (Requests e), log1 @ [manifest_request img token docker_v2])
      | Inr res \<Rightarrow>
          if status_code res = 200
          then (response_json res, log1 @ [manifest_request img token docker_v2])
          else
            (case net (log1 @ [manifest_request img token docker_v2])
                    (manifest_request img token oci_v1) of
               Inl e \<Rightarrow> (Inl (Requests e),
                  log1 @ [manifest_request img token docker_v2, manifest_request img token oci_v1])
             | Inr res' \<Rightarrow> (json_if_200 res',
                  log1 @ [manifest_request img token docker_v2, manifest_request img token oci_v1])))"
  by (simp add: get_image_manifest_def requests_get_def json_if_200_def split: sum.splits)

lemma get_image_manifest_token_error:
  "hostname img = image_repo_docker_api.hostname self \<Longrightarrow>
   get_docker_token net self img log = (Inl e, log1) \<Longrightarrow>
   get_image_manifest net self img log = (Inl e, log1)"
  by (simp add: get_image_manifest_def)

lemma manifest_accept: "map_of (headers (manifest_request img token accept)) ''Accept'' = Some (Plain accept)"
  by (simp add: manifest_request_def manifest_headers_def update_conv')

text \<open>
  Claim C4. When the probe is answered with status 401 and a \<open>Www-Authenticate\<close> header
  that gives no \<open>realm\<close>, the authenticator fails with the exception that stands for the
  specification's \<open>AuthenticationRejected\<close>: \<open>KeyError\<close> from \<open>params.pop("realm")\<close> when the
  parameters of the challenge have no \<open>realm\<close>, \<open>AttributeError\<close> from \<open>www_auth.parameters\<close>
  when the header holds no challenge at all. The exception leaves \<open>get_image_manifest\<close>,
  \<open>image_exists\<close> and \<open>image_workdir\<close> as well, and the probe is the only request sent: no
  manifest request follows, with or without a token.
\<close>

theorem probe_401_without_realm_fails:
  assumes "net log (probe_request self img) = Inr auth_req"
      and "status_code auth_req = 401"
      and "www_authenticate auth_req = NoChallenge
           \<or> (www_authenticate auth_req = Challenge www_params
                \<and> map_of www_params ''realm'' = None)"
  shows "\<exists>e. authentication_rejected e
           \<and> (www_authenticate auth_req = NoChallenge \<longrightarrow> e = AttributeError)
           \<and> (www_authenticate auth_req = Challenge www_params \<longrightarrow> e = KeyError ''realm'')
           \<and> get_docker_token net self img log = (Inl e, log @ [probe_request self img])
           \<and> (hostname img = image_repo_docker_api.hostname self \<longrightarrow>
                get_image_manifest net self img log = (Inl e, log @ [probe_request self img])
                \<and> image_exists net self img log = (Inl e, log @ [probe_request self img])
                \<and> image_workdir net self img log = (Inl e, log @ [probe_request self img]))"
proof -
  have rest: "get_image_manifest net self img log = (Inl e, log @ [probe_request self img])
      \<and> image_exists net self img log = (Inl e, log @ [probe_request self img])
      \<and> image_workdir net self img log = (Inl e, log @ [probe_request self img])"
    if t: "get_docker_token net self img log = (Inl e, log @ [probe_request self img])"
      and h: "hostname img = image_repo_docker_api.hostname self" for e
  proof -
    have "get_image_manifest net self img log = (Inl e, log @ [probe_request self img])"
      using h t by (rule get_image_manifest_token_error)
    then show ?thesis
      by (simp add: image_exists_def image_workdir_def get_image_config_def)
  qed
  from assms(3) show ?thesis
  proof
    assume n: "www_authenticate auth_req = NoChallenge"
    have t: "get_docker_token net self img log =
        (Inl AttributeError, log @ [probe_request self img])"
      using assms(1,2) n by (rule get_docker_token_no_parse)
    show ?thesis
      by (rule exI [of _ AttributeError])
         (use n t rest [OF t] in \<open>simp add: authentication_rejected_def\<close>)
  next
    assume c: "www_authenticate auth_req = Challenge www_params
        \<and> map_of www_params ''realm'' = None"
    have t: "get_docker_token net self img log =
        (Inl (KeyError ''realm''), log @ [probe_request self img])"
      using assms(1,2) conjunct1 [OF c] conjunct2 [OF c] by (rule get_docker_token_no_realm)
    show ?thesis
      by (rule exI [of _ "KeyError ''realm''"])
         (use c t rest [OF t] in \<open>simp add: authentication_rejected_def\<close>)
  qed
qed

text \<open>
  Claim C4 at concrete inputs: a challenge that carries a \<open>service\<close> and no \<open>realm\<close>, and
  a header without a challenge.
\<close>

theorem probe_401_without_realm_fails_witness:
  "scripted [Inr (challenge_response [(''service'', Some ''registry'')])] []
       (probe_request example_api example_image) =
     Inr (challenge_response [(''service'', Some ''registry'')])
   \<and> status_code (challenge_response [(''service'', Some ''registry'')]) = 401
   \<and> www_authenticate (challenge_response [(''service'', Some ''registry'')]) =
       Challenge [(''service'', Some ''registry'')]
   \<and> map_of [(''service'', Some ''registry'')] ''realm'' = None
   \<and> hostname example_image = image_repo_docker_api.hostname example_api
   \<and> image_exists (scripted [Inr (challenge_response [(''service'', Some ''registry'')])])
       example_api example_image [] =
       (Inl (KeyError ''realm''), [probe_request example_api example_image])
   \<and> scripted [Inr empty_challenge_response] [] (probe_request example_api example_image) =
       Inr empty_challenge_response
   \<and> status_code empty_challenge_response = 401
   \<and> www_authenticate empty_challenge_response = NoChallenge
   \<and> image_exists (scripted [Inr empty_challenge_response]) example_api example_image [] =
       (Inl AttributeError, [probe_request example_api example_image])"
  using probe_401_without_realm_fails
    [of "scripted [Inr (challenge_response [(''service'', Some ''registry'')])]" "[]"
        example_api example_image "challenge_response [(''service'', Some ''registry'')]"
        "[(''service'', Some ''registry'')]"]
    probe_401_without_realm_fails
    [of "scripted [Inr empty_challenge_response]" "[]"
        example_api example_image empty_challenge_response "[]"]
  by (auto simp: scripted_def challenge_response_def empty_challenge_response_def
      example_api_def repo_api_def example_image_def)

text \<open>
  Claim C6, amended. A \<open>ConnectionError\<close> of the probe request is caught: the token is
  \<open>None\<close>, the result of a registry that asks for no authentication, and when the hostnames
  agree the manifest request is sent next, without an \<open>Authorization\<close> header. Any other
  exception of the probe request leaves \<open>_get_docker_token\<close>.
\<close>

theorem probe_connection_error_is_caught:
  "(net log (probe_request self img) = Inl ConnectionError \<longrightarrow>
      get_docker_token net self img log = (Inr PNone, log @ [probe_request self img])
      \<and> map_of (headers (manifest_request img PNone docker_v2)) ''Authorization'' = None
      \<and> (hostname img = image_repo_docker_api.hostname self \<longrightarrow>
           (\<exists>rest. snd (get_image_manifest net self img log) =
              log @ [probe_request self img, manifest_request img PNone docker_v2] @ rest)))
   \<and> (net log (probe_request self img) = Inl OtherRequestException \<longrightarrow>
      get_docker_token net self img log =
        (Inl (Requests OtherRequestException), log @ [probe_request self img]))"
proof (intro conjI impI)
  assume a: "net log (probe_request self img) = Inl ConnectionError"
  show t: "get_docker_token net self img log = (Inr PNone, log @ [probe_request self img])"
    using get_docker_token_probe_raises [of net log self img ConnectionError, OF a] by simp
  show "map_of (headers (manifest_request img PNone docker_v2)) ''Authorization'' = None"
    by (simp add: manifest_request_def manifest_headers_def)
  assume h: "hostname img = image_repo_docker_api.hostname self"
  show "\<exists>rest. snd (get_image_manifest net self img log) =
              log @ [probe_request self img, manifest_request img PNone docker_v2] @ rest"
    by (simp add: get_image_manifest_steps [OF h t] split: sum.splits)
next
  assume a: "net log (probe_request self img) = Inl OtherRequestException"
  show "get_docker_token net self img log =
        (Inl (Requests OtherRequestException), log @ [probe_request self img])"
    using get_docker_token_probe_raises [of net log self img OtherRequestException, OF a]
    by simp
qed

text \<open>
  Claim C6, amended, at concrete inputs: a probe that raises \<open>ConnectionError\<close>, and one
  that raises another exception.
\<close>

theorem probe_connection_error_is_caught_witness:
  "unreachable_then_404 [] (probe_request example_api example_image) = Inl ConnectionError
   \<and> get_docker_token unreachable_then_404 example_api example_image [] =
       (Inr PNone, [probe_request example_api example_image])
   \<and> scripted [Inl OtherRequestException] [] (probe_request example_api example_image) =
       Inl OtherRequestException
   \<and> get_docker_token (scripted [Inl OtherRequestException]) example_api example_image [] =
       (Inl (Requests OtherRequestException), [probe_request example_api example_image])"
  using probe_connection_error_is_caught [of unreachable_then_404 "[]" example_api example_image]
        probe_connection_error_is_caught
          [of "scripted [Inl OtherRequestException]" "[]" example_api example_image]
  by (simp add: unreachable_then_404_def scripted_def)

text \<open>
  Claim C6 as stated fails: on a registry whose probe raises \<open>ConnectionError\<close> and whose
  manifest requests are answered with 404, the token step returns \<open>None\<close> without an error
  and \<open>image_exists\<close> returns \<open>False\<close>, the answer for an image that does not exist.
\<close>

theorem probe_failure_unreachable_counterexample:
  "get_docker_token unreachable_then_404 example_api example_image [] =
     (Inr PNone, [probe_request example_api example_image])
   \<and> image_exists unreachable_then_404 example_api example_image [] =
     (Inr False,
      [probe_request example_api example_image,
       manifest_request example_image PNone docker_v2,
       manifest_request example_image PNone oci_v1])"
  by (simp add: image_exists_def get_image_manifest_def get_docker_token_def requests_get_def
      unreachable_then_404_def scripted_def plain_response_def json_if_200_def
      example_api_def repo_api_def example_image_def)

lemma token_headers_basic:
  "oauth2_token self = Some t \<Longrightarrow> t \<noteq> [] \<Longrightarrow>
   token_headers self =
     [(''Accept'', Plain ''application/json''),
      (''Authorization'', BasicAuth (urlsafe_b64encode (''oauth2:'' @ t)))]"
  by (simp add: token_headers_def)

lemma token_headers_none:
  "oauth2_token self = None \<or> oauth2_token self = Some [] \<Longrightarrow>
   token_headers self = [(''Accept'', Plain ''application/json'')]"
  by (auto simp: token_headers_def)

text \<open>
  Claim C5, amended. After a 401 challenge with a realm, the token request goes to the
  realm with the other parameters of the challenge. When \<open>oauth2_token\<close> is a non-empty
  string \<open>t\<close> the request carries \<open>Authorization: Basic\<close> with the URL-safe base64 of
  \<open>oauth2:t\<close>, otherwise no \<open>Authorization\<close> header. The result is read from the body
  alone, whatever the status code, 403 included: the \<open>token\<close> field of a JSON object
  (\<open>None\<close> when the object has none); a body that is not JSON raises \<open>JSONDecodeError\<close>, a
  JSON body that is not an object raises \<open>AttributeError\<close>, and an exception of the request
  propagates.
\<close>

theorem token_exchange_result:
  assumes "net log (probe_request self img) = Inr auth_req"
      and "status_code auth_req = 401"
      and "www_authenticate auth_req = Challenge www_params"
      and "map_of www_params ''realm'' = Some realm"
  shows "snd (get_docker_token net self img log) =
           log @ [probe_request self img, token_request self www_params realm]
         \<and> url (token_request self www_params realm) = Address realm
         \<and> params (token_request self www_params realm) = AList.delete ''realm'' www_params
         \<and> (\<forall>t. oauth2_token self = Some t \<longrightarrow> t \<noteq> [] \<longrightarrow>
              headers (token_request self www_params realm) =
                [(''Accept'', Plain ''application/json''),
                 (''Authorization'', BasicAuth (urlsafe_b64encode (''oauth2:'' @ t)))])
         \<and> (oauth2_token self = None \<or> oauth2_token self = Some [] \<longrightarrow>
              headers (token_request self www_params realm) =
                [(''Accept'', Plain ''application/json'')])
         \<and> (\<forall>token_req.
              net (log @ [probe_request self img]) (token_request self www_params realm) =
                Inr token_req \<longrightarrow>
              (\<forall>kvs. json token_req = Some (PDict kvs) \<longrightarrow>
                 fst (get_docker_token net self img log) =
                   Inr (case map_of kvs ''token'' of None \<Rightarrow> PNone | Some v \<Rightarrow> v))
              \<and> (json token_req = None \<longrightarrow>
                   fst (get_docker_token net self img log) = Inl JSONDecodeError)
              \<and> (\<forall>v. json token_req = Some v \<longrightarrow> (\<forall>kvs. v \<noteq> PDict kvs) \<longrightarrow>
                   fst (get_docker_token net self img log) = Inl AttributeError))
         \<and> (\<forall>e. net (log @ [probe_request self img]) (token_request self www_params realm) =
                Inl e \<longrightarrow>
              fst (get_docker_token net self img log) = Inl (Requests e))"
proof -
  note x = get_docker_token_exchange [of net log self img auth_req www_params realm, OF assms]
  have nd: "dict_get v ''token'' PNone = Inl AttributeError" if "\<forall>kvs. v \<noteq> PDict kvs" for v
    using that by (cases v) auto
  show ?thesis
    unfolding x
    by (auto simp: token_request_def token_headers_basic token_headers_none response_json_def nd)
qed

text \<open>
  Claim C5, amended, at a concrete input: the credential \<open>abc\<close> and a token endpoint that
  answers 500 with a token in the body.
\<close>

theorem token_exchange_result_witness:
  "challenge_then_500_token [] (probe_request private_api example_image) =
     Inr (challenge_response example_challenge)
   \<and> status_code (challenge_response example_challenge) = 401
   \<and> www_authenticate (challenge_response example_challenge) = Challenge example_challenge
   \<and> map_of example_challenge ''realm'' = Some (Some ''https://auth.example.com/token'')
   \<and> oauth2_token private_api = Some ''abc''
   \<and> headers (token_request private_api example_challenge (Some ''https://auth.example.com/token'')) =
       [(''Accept'', Plain ''application/json''), (''Authorization'', BasicAuth ''b2F1dGgyOmFiYw=='')]
   \<and> fst (get_docker_token challenge_then_500_token private_api example_image []) =
       Inr (PStr ''t0k'')"
  using token_exchange_result
    [of challenge_then_500_token "[]" private_api example_image
        "challenge_response example_challenge" example_challenge
        "Some ''https://auth.example.com/token''"]
  by (simp add: challenge_then_500_token_def scripted_def challenge_response_def
      example_challenge_def private_api_def with_oauth2_token_fields_def plain_response_def
      urlsafe_b64encode_def b64_char_def b64_alphabet_def)

text \<open>
  Claim C5 as stated fails: a token endpoint that answers 403 with an empty JSON object
  gives the token \<open>None\<close> and no error, and one that answers 500 with a \<open>token\<close> field gives
  that token.
\<close>

theorem token_exchange_403_counterexample:
  "status_code (plain_response 403 (Some (PDict []))) = 403
   \<and> get_docker_token challenge_then_403 private_api example_image [] =
     (Inr PNone,
      [probe_request private_api example_image,
       token_request private_api example_challenge (Some ''https://auth.example.com/token'')])
   \<and> get_docker_token challenge_then_500_token private_api example_image [] =
     (Inr (PStr ''t0k''),
      [probe_request private_api example_image,
       token_request private_api example_challenge (Some ''https://auth.example.com/token'')])"
  by (simp add: get_docker_token_def requests_get_def getitem_def response_json_def
      challenge_then_403_def challenge_then_500_token_def scripted_def challenge_response_def
      example_challenge_def plain_response_def)

subsection \<open>The two manifest requests\<close>

lemma image_exists_conv:
  "image_exists net self img log =
     (case fst (get_image_manifest net self img log) of
        Inl e \<Rightarrow> Inl e | Inr manifest \<Rightarrow> Inr (manifest \<noteq> PNone),
      snd (get_image_manifest net self img log))"
  by (simp add: image_exists_def split: prod.splits sum.splits)

text \<open>
  Claim C1, amended. Once the hostname check and the token step have passed,
  \<open>get_image_manifest\<close> sends the manifest request with \<open>Accept\<close> set to the Docker V2 media
  type. If the answer has status 200 no other request is sent and the result is the decoded
  body; \<open>image_exists\<close> is \<open>True\<close> when the body decodes to a value other than \<open>None\<close>. If
  the status is not 200, exactly one more request is sent, with \<open>Accept\<close> set to the OCI V1
  media type: \<open>image_exists\<close> is \<open>True\<close> when that answer has status 200 and a body that
  decodes to a value other than \<open>None\<close>, and \<open>False\<close>, without an error, when its status is
  not 200 (404 included).
\<close>

theorem get_image_manifest_two_attempts:
  assumes "hostname img = image_repo_docker_api.hostname self"
      and "get_docker_token net self img log = (Inr token, log1)"
      and "net log1 (manifest_request img token docker_v2) = Inr res1"
  shows "map_of (headers (manifest_request img token docker_v2)) ''Accept'' = Some (Plain docker_v2)
    \<and> map_of (headers (manifest_request img token oci_v1)) ''Accept'' = Some (Plain oci_v1)
    \<and> (status_code res1 = 200 \<longrightarrow>
         get_image_manifest net self img log =
           (response_json res1, log1 @ [manifest_request img token docker_v2])
         \<and> (\<forall>v. json res1 = Some v \<longrightarrow> v \<noteq> PNone \<longrightarrow>
              image_exists net self img log =
                (Inr True, log1 @ [manifest_request img token docker_v2])))
    \<and> (status_code res1 \<noteq> 200 \<longrightarrow>
         (\<forall>res2.
            net (log1 @ [manifest_request img token docker_v2])
              (manifest_request img token oci_v1) = Inr res2 \<longrightarrow>
            get_image_manifest net self img log =
              (json_if_200 res2,
               log1 @ [manifest_request img token docker_v2, manifest_request img token oci_v1])
            \<and> (status_code res2 = 200 \<longrightarrow>
                 (\<forall>v. json res2 = Some v \<longrightarrow> v \<noteq> PNone \<longrightarrow>
                    image_exists net self img log =
                      (Inr True,
                       log1 @ [manifest_request img token docker_v2,
                               manifest_request img token oci_v1])))
            \<and> (status_code res2 \<noteq> 200 \<longrightarrow>
                 image_exists net self img log =
                   (Inr False,
                    log1 @ [manifest_request img token docker_v2,
                            manifest_request img token oci_v1]))))"
proof -
  note s = get_image_manifest_steps [OF assms(1,2)]
  show ?thesis
    unfolding image_exists_conv s
    using assms(3) by (simp add: manifest_accept json_if_200_def response_json_def)
qed

text \<open>
  Claim C1, amended, at concrete inputs: a registry that answers the first manifest
  request with 200, one that answers only the OCI request with 200, and one that answers
  both with 404.
\<close>

theorem get_image_manifest_two_attempts_witness:
  "hostname example_image = image_repo_docker_api.hostname example_api
   \<and> get_docker_token open_registry_v2 example_api example_image [] =
       (Inr PNone, [probe_request example_api example_image])
   \<and> open_registry_v2 [probe_request example_api example_image]
         (manifest_request example_image PNone docker_v2) =
       Inr (plain_response 200 (Some example_manifest))
   \<and> image_exists open_registry_v2 example_api example_image [] =
       (Inr True,
        [probe_request example_api example_image, manifest_request example_image PNone docker_v2])
   \<and> get_docker_token open_registry_oci_only example_api example_image [] =
       (Inr PNone, [probe_request example_api example_image])
   \<and> open_registry_oci_only [probe_request example_api example_image]
         (manifest_request example_image PNone docker_v2) =
       Inr (plain_response 404 None)
   \<and> image_exists open_registry_oci_only example_api example_image [] =
       (Inr True,
        [probe_request example_api example_image, manifest_request example_image PNone docker_v2,
         manifest_request example_image PNone oci_v1])
   \<and> get_docker_token open_registry_absent example_api example_image [] =
       (Inr PNone, [probe_request example_api example_image])
   \<and> open_registry_absent [probe_request example_api example_image]
         (manifest_request example_image PNone docker_v2) =
       Inr (plain_response 404 None)
   \<and> image_exists open_registry_absent example_api example_image [] =
       (Inr False,
        [probe_request example_api example_image, manifest_request example_image PNone docker_v2,
         manifest_request example_image PNone oci_v1])"
proof -
  have h: "hostname example_image = image_repo_docker_api.hostname example_api"
    by (simp add: example_api_def repo_api_def)
  have t1: "get_docker_token open_registry_v2 example_api example_image [] =
       (Inr PNone, [probe_request example_api example_image])"
    by (simp add: get_docker_token_def requests_get_def open_registry_v2_def scripted_def
        plain_response_def)
  have t2: "get_docker_token open_registry_oci_only example_api example_image [] =
       (Inr PNone, [probe_request example_api example_image])"
    by (simp add: get_docker_token_def requests_get_def open_registry_oci_only_def scripted_def
        plain_response_def)
  have t3: "get_docker_token open_registry_absent example_api example_image [] =
       (Inr PNone, [probe_request example_api example_image])"
    by (simp add: get_docker_token_def requests_get_def open_registry_absent_def scripted_def
        plain_response_def)
  have r1: "open_registry_v2 [probe_request example_api example_image]
         (manifest_request example_image PNone docker_v2) =
       Inr (plain_response 200 (Some example_manifest))"
    by (simp add: open_registry_v2_def scripted_def)
  have r2: "open_registry_oci_only [probe_request example_api example_image]
         (manifest_request example_image PNone docker_v2) = Inr (plain_response 404 None)"
    by (simp add: open_registry_oci_only_def scripted_def)
  have r2': "open_registry_oci_only
         [probe_request example_api example_image, manifest_request example_image PNone docker_v2]
         (manifest_request example_image PNone oci_v1) =
       Inr (plain_response 200 (Some example_manifest))"
    by (simp add: open_registry_oci_only_def scripted_def)
  have r3: "open_registry_absent [probe_request example_api example_image]
         (manifest_request example_image PNone docker_v2) = Inr (plain_response 404 None)"
    by (simp add: open_registry_absent_def scripted_def)
  have r3': "open_registry_absent
         [probe_request example_api example_image, manifest_request example_image PNone docker_v2]
         (manifest_request example_image PNone oci_v1) = Inr (plain_response 404 None)"
    by (simp add: open_registry_absent_def scripted_def)
  show ?thesis
    using get_image_manifest_two_attempts
            [of example_image example_api open_registry_v2 "[]" PNone
                "[probe_request example_api example_image]"
                "plain_response 200 (Some example_manifest)", OF h t1 r1]
          get_image_manifest_two_attempts
            [of example_image example_api open_registry_oci_only "[]" PNone
                "[probe_request example_api example_image]" "plain_response 404 None", OF h t2 r2]
          get_image_manifest_two_attempts
            [of example_image example_api open_registry_absent "[]" PNone
                "[probe_request example_api example_image]" "plain_response 404 None", OF h t3 r3]
          h t1 t2 t3 r1 r2 r2' r3 r3'
    by (simp add: plain_response_def example_manifest_def)
qed

text \<open>
  Claim C1 as stated fails: the first manifest request is answered with status 200 and the
  body \<open>null\<close>, which \<open>json()\<close> decodes to \<open>None\<close>, and \<open>image_exists\<close> returns \<open>False\<close>.
\<close>

theorem image_exists_200_null_body_counterexample:
  "open_registry_null_body [probe_request example_api example_image]
       (manifest_request example_image PNone docker_v2) =
     Inr \<lparr>status_code = 200, www_authenticate = NoHeader, json = Some PNone\<rparr>
   \<and> image_exists open_registry_null_body example_api example_image [] =
     (Inr False,
      [probe_request example_api example_image, manifest_request example_image PNone docker_v2])"
  by (simp add: image_exists_def get_image_manifest_def get_docker_token_def requests_get_def
      open_registry_null_body_def scripted_def plain_response_def json_if_200_def response_json_def
      example_api_def repo_api_def example_image_def)

subsection \<open>The working directory\<close>

lemma image_workdir_conv:
  "image_workdir net self img log =
     (case fst (get_image_config net self img log) of
        Inl e \<Rightarrow> Inl e
      | Inr config \<Rightarrow>
          if config = PNone then Inr None
          else
            (case dict_get config ''config'' (PDict []) of
               Inl e \<Rightarrow> Inl e
             | Inr nested_config \<Rightarrow>
                 if nested_config = PNone then Inr None
                 else
                   (case dict_get nested_config ''WorkingDir'' (PStr ''/'') of
                      Inl e \<Rightarrow> Inl e
                    | Inr workdir \<Rightarrow>
                        (case make_path (if workdir = PStr [] then PStr ''/'' else workdir) of
                           Inl e \<Rightarrow> Inl e
                         | Inr p \<Rightarrow> Inr (Some p)))),
      snd (get_image_config net self img log))"
  by (simp add: image_workdir_def split: prod.splits sum.splits)

lemma get_image_config_conv:
  "get_image_manifest net self img log = (Inr manifest, log1) \<Longrightarrow>
   get_image_config net self img log =
     (if manifest = PNone then (Inr PNone, log1)
      else
        (case dict_get manifest ''config'' (PDict []) of
           Inl e \<Rightarrow> (Inl e, log1)
         | Inr config \<Rightarrow>
             (case dict_get config ''digest'' PNone of
                Inl e \<Rightarrow> (Inl e, log1)
              | Inr config_digest \<Rightarrow>
                  if config_digest = PNone then (Inr PNone, log1)
                  else
                    (case get_docker_token net self img log1 of
                       (Inl e, log2) \<Rightarrow> (Inl e, log2)
                     | (Inr token, log2) \<Rightarrow>
                         (case net log2 (blob_request img config_digest token) of
                            Inl e \<Rightarrow> (Inl (Requests e),
                                      log2 @ [blob_request img config_digest token])
                          | Inr res \<Rightarrow> (json_if_200 res,
                                      log2 @ [blob_request img config_digest token]))))))"
  by (simp add: get_image_config_def requests_get_def split: sum.splits prod.splits)

text \<open>
  Claim C3, amended. \<open>image_workdir\<close> returns the path of the configured \<open>WorkingDir\<close> when
  the nested \<open>config\<close> of the image configuration holds a non-empty string there, and the
  path \<open>/\<close> when \<open>WorkingDir\<close> is omitted or is the empty string. When the manifest is
  absent, when the manifest has no config digest, and when the blob request is answered
  with a status other than 200, it returns \<open>None\<close> without an exception. It is not total: a
  blob answered with status 200 and a body that is not JSON raises \<open>JSONDecodeError\<close>.
\<close>

theorem image_workdir_best_effort:
  "(\<forall>kvs c. get_image_config net self img log = (Inr (PDict kvs), log1) \<longrightarrow>
        map_of kvs ''config'' = Some (PDict c) \<longrightarrow>
        (\<forall>w. map_of c ''WorkingDir'' = Some (PStr w) \<longrightarrow> w \<noteq> [] \<longrightarrow>
             image_workdir net self img log = (Inr (Some (Path w)), log1))
        \<and> (map_of c ''WorkingDir'' = None \<or> map_of c ''WorkingDir'' = Some (PStr []) \<longrightarrow>
             image_workdir net self img log = (Inr (Some (Path ''/'')), log1)))
   \<and> (get_image_manifest net self img log = (Inr PNone, log1) \<longrightarrow>
        image_workdir net self img log = (Inr None, log1))
   \<and> (\<forall>m. get_image_manifest net self img log = (Inr (PDict m), log1) \<longrightarrow>
        (map_of m ''config'' = None
         \<or> (\<exists>c. map_of m ''config'' = Some (PDict c)
                \<and> (map_of c ''digest'' = None \<or> map_of c ''digest'' = Some PNone))) \<longrightarrow>
        image_workdir net self img log = (Inr None, log1))
   \<and> (\<forall>m c d token log2 res.
        get_image_manifest net self img log = (Inr (PDict m), log1) \<longrightarrow>
        map_of m ''config'' = Some (PDict c) \<longrightarrow> map_of c ''digest'' = Some d \<longrightarrow> d \<noteq> PNone \<longrightarrow>
        get_docker_token net self img log1 = (Inr token, log2) \<longrightarrow>
        net log2 (blob_request img d token) = Inr res \<longrightarrow>
        (status_code res \<noteq> 200 \<longrightarrow>
           image_workdir net self img log = (Inr None, log2 @ [blob_request img d token]))
        \<and> (status_code res = 200 \<longrightarrow> json res = None \<longrightarrow>
           image_workdir net self img log =
             (Inl JSONDecodeError, log2 @ [blob_request img d token]))
        \<and> (\<forall>v. status_code res = 200 \<longrightarrow> json res = Some v \<longrightarrow>
           get_image_config net self img log = (Inr v, log2 @ [blob_request img d token])))"
proof (intro conjI allI impI)
  fix kvs c w
  assume "get_image_config net self img log = (Inr (PDict kvs), log1)"
    "map_of kvs ''config'' = Some (PDict c)" "map_of c ''WorkingDir'' = Some (PStr w)" "w \<noteq> []"
  then show "image_workdir net self img log = (Inr (Some (Path w)), log1)"
    by (simp add: image_workdir_conv)
next
  fix kvs c
  assume "get_image_config net self img log = (Inr (PDict kvs), log1)"
    "map_of kvs ''config'' = Some (PDict c)"
    "map_of c ''WorkingDir'' = None \<or> map_of c ''WorkingDir'' = Some (PStr [])"
  then show "image_workdir net self img log = (Inr (Some (Path ''/'')), log1)"
    by (auto simp: image_workdir_conv)
next
  assume "get_image_manifest net self img log = (Inr PNone, log1)"
  then show "image_workdir net self img log = (Inr None, log1)"
    by (simp add: image_workdir_conv get_image_config_conv)
next
  fix m
  assume "get_image_manifest net self img log = (Inr (PDict m), log1)"
    "map_of m ''config'' = None
         \<or> (\<exists>c. map_of m ''config'' = Some (PDict c)
                \<and> (map_of c ''digest'' = None \<or> map_of c ''digest'' = Some PNone))"
  then show "image_workdir net self img log = (Inr None, log1)"
    by (auto simp: image_workdir_conv get_image_config_conv)
next
  fix m c d token log2 res
  assume a: "get_image_manifest net self img log = (Inr (PDict m), log1)"
    "map_of m ''config'' = Some (PDict c)" "map_of c ''digest'' = Some d" "d \<noteq> PNone"
    "get_docker_token net self img log1 = (Inr token, log2)"
    "net log2 (blob_request img d token) = Inr res"
  have c: "get_image_config net self img log =
             (json_if_200 res, log2 @ [blob_request img d token])"
    using a by (simp add: get_image_config_conv)
  show "image_workdir net self img log = (Inr None, log2 @ [blob_request img d token])"
    if "status_code res \<noteq> 200"
    using that by (simp add: image_workdir_conv c json_if_200_def)
  show "image_workdir net self img log = (Inl JSONDecodeError, log2 @ [blob_request img d token])"
    if "status_code res = 200" "json res = None"
    using that by (simp add: image_workdir_conv c json_if_200_def response_json_def)
  show "get_image_config net self img log = (Inr v, log2 @ [blob_request img d token])"
    if "status_code res = 200" "json res = Some v" for v
    using that by (simp add: c json_if_200_def response_json_def)
qed

lemmas eval_defs = image_workdir_def get_image_config_def image_exists_def get_image_manifest_def
  get_docker_token_def requests_get_def getitem_def response_json_def json_if_200_def
  scripted_def plain_response_def challenge_response_def token_response_def
  example_challenge_def example_manifest_def example_config_def

lemma private_config:
  "get_image_config (private_registry (plain_response 200 (Some example_config)))
     private_api example_image [] = (Inr example_config, private_log)"
  by (simp add: eval_defs private_registry_def private_log_def private_api_def
      with_oauth2_token_fields_def example_api_def repo_api_def example_image_def)

text \<open>
  Claim C3, amended, at concrete inputs: a registry that asks for a token and serves a
  configuration with \<open>WorkingDir\<close> \<open>/home/jovyan\<close>, and a registry without the manifest.
\<close>

theorem image_workdir_best_effort_witness:
  "get_image_config (private_registry (plain_response 200 (Some example_config)))
       private_api example_image [] = (Inr example_config, private_log)
   \<and> image_workdir (private_registry (plain_response 200 (Some example_config)))
       private_api example_image [] = (Inr (Some (Path ''/home/jovyan'')), private_log)
   \<and> get_image_manifest open_registry_absent example_api example_image [] =
       (Inr PNone,
        [probe_request example_api example_image, manifest_request example_image PNone docker_v2,
         manifest_request example_image PNone oci_v1])
   \<and> image_workdir open_registry_absent example_api example_image [] =
       (Inr None,
        [probe_request example_api example_image, manifest_request example_image PNone docker_v2,
         manifest_request example_image PNone oci_v1])"
proof -
  have m: "get_image_manifest open_registry_absent example_api example_image [] =
       (Inr PNone,
        [probe_request example_api example_image, manifest_request example_image PNone docker_v2,
         manifest_request example_image PNone oci_v1])"
    by (simp add: eval_defs open_registry_absent_def example_api_def repo_api_def
        example_image_def)
  have c: "get_image_config (private_registry (plain_response 200 (Some example_config)))
       private_api example_image [] =
       (Inr (PDict [(''architecture'', PStr ''amd64''),
                    (''config'', PDict [(''WorkingDir'', PStr ''/home/jovyan'')])]), private_log)"
    using private_config by (simp add: example_config_def)
  show ?thesis
    using image_workdir_best_effort
            [of "private_registry (plain_response 200 (Some example_config))" private_api
                example_image "[]" private_log]
          image_workdir_best_effort
            [of open_registry_absent example_api example_image "[]"
                "[probe_request example_api example_image,
                  manifest_request example_image PNone docker_v2,
                  manifest_request example_image PNone oci_v1]"]
          m c private_config
    by simp
qed

text \<open>
  Claim C3 as stated fails: a configuration blob answered with status 200 and a body that
  is not JSON makes \<open>image_workdir\<close> raise \<open>JSONDecodeError\<close>, and on a registry without
  the manifest the result is \<open>None\<close>, not the path \<open>/\<close>.
\<close>

theorem image_workdir_raises_counterexample:
  "json (plain_response 200 None) = None
   \<and> image_workdir (private_registry (plain_response 200 None)) private_api example_image [] =
       (Inl JSONDecodeError, private_log)
   \<and> image_workdir open_registry_absent example_api example_image [] =
       (Inr None,
        [probe_request example_api example_image, manifest_request example_image PNone docker_v2,
         manifest_request example_image PNone oci_v1])"
  by (simp add: eval_defs private_registry_def private_log_def private_api_def
      with_oauth2_token_fields_def open_registry_absent_def example_api_def repo_api_def
      example_image_def)

subsection \<open>The classification of paths by \<open>from_path\<close>\<close>

lemma subset_chain: "A \<union> B1 \<subseteq> G1 \<Longrightarrow> G1 \<union> B2 \<subseteq> G' \<Longrightarrow> A \<union> (B1 \<union> B2) \<subseteq> G'"
  by blast

lemma subset_either: "A \<union> B1 \<subseteq> G \<or> A \<union> B2 \<subseteq> G \<Longrightarrow> A \<union> (B1 \<inter> B2) \<subseteq> G"
  by blast

lemma run_binds:
  "(b', s', g') \<in> set (run r (b, s, g)) \<Longrightarrow> fst ` set g \<union> binds r \<subseteq> fst ` set g'"
proof (induction r arbitrary: b s g b' s' g')
  case Bol
  then show ?case by (simp split: if_splits)
next
  case Eol
  then show ?case by (simp split: if_splits)
next
  case (Chr c)
  then show ?case by (simp split: list.splits if_splits)
next
  case (Rep1 cl)
  then have "g' = g" by auto
  then show ?case by simp
next
  case (Cat r1 r2)
  from Cat.prems have "(b', s', g') \<in> (\<Union>st \<in> set (run r1 (b, s, g)). set (run r2 st))"
    by simp
  then obtain st where st: "st \<in> set (run r1 (b, s, g))" "(b', s', g') \<in> set (run r2 st)"
    by blast
  obtain b1 s1 g1 where e: "st = (b1, s1, g1)" by (cases st)
  have 1: "(b1, s1, g1) \<in> set (run r1 (b, s, g))" using st(1) unfolding e .
  have 2: "(b', s', g') \<in> set (run r2 (b1, s1, g1))" using st(2) unfolding e .
  from subset_chain [OF Cat.IH(1)[OF 1] Cat.IH(2)[OF 2]] show ?case by simp
next
  case (Alt r1 r2)
  from Alt.prems have "(b', s', g') \<in> set (run r1 (b, s, g)) \<or> (b', s', g') \<in> set (run r2 (b, s, g))"
    by simp
  then have "fst ` set g \<union> binds r1 \<subseteq> fst ` set g' \<or> fst ` set g \<union> binds r2 \<subseteq> fst ` set g'"
    using Alt.IH by blast
  from subset_either [OF this] show ?case by simp
next
  case (Ahead r)
  from Ahead.prems have "g' = g" by (simp split: if_splits)
  then show ?case by simp
next
  case (Behind r)
  from Behind.prems have "g' = g" by (auto split: if_splits option.splits)
  then show ?case by simp
next
  case (Grp n r)
  from Grp.prems obtain st where st: "st \<in> set (run r (b, s, g))"
    "(b', s', g') = (\<lambda>(b', s', g'). (b', s', AList.update n (rev (take (length b' - length b) b')) g')) st"
    by auto
  obtain b1 s1 g1 where e: "st = (b1, s1, g1)" by (cases st)
  from st(2) have "b1 = b'" "s1 = s'"
    and 2: "g' = AList.update n (rev (take (length b' - length b) b')) g1"
    unfolding e by simp_all
  with st(1) have 1: "(b', s', g1) \<in> set (run r (b, s, g))" unfolding e by simp
  from Grp.IH[OF 1] have "fst ` set g \<union> binds r \<subseteq> fst ` set g1" .
  then have "fst ` set g \<union> insert n (binds r) \<subseteq> insert n (fst ` set g1)" by blast
  then show ?case by (simp add: 2 dom_update)
qed

lemma re_match_binds:
  assumes "re_match r path = Some g" shows "binds r \<subseteq> fst ` set g"
proof -
  from assms obtain b s rest where "run r ([], path, []) = (b, s, g) # rest"
    by (auto simp: re_match_def split: list.splits)
  then have "(b, s, g) \<in> set (run r ([], path, []))" by simp
  from run_binds[OF this] show ?thesis by simp
qed

lemma map_of_dict_update: "map_of (dict_update d fill) = map_of d ++ map_of (rev fill)"
  unfolding dict_update_def
proof (induction fill arbitrary: d)
  case Nil
  show ?case by simp
next
  case (Cons kv fill)
  obtain k v where kv: "kv = (k, v)" by (cases kv)
  have "map_of (AList.update k v d) ++ map_of (rev fill) = map_of d ++ ([k \<mapsto> v] ++ map_of (rev fill))"
    by (simp add: update_conv' fun_eq_iff map_add_def split: option.splits)
  then show ?case
    by (simp add: kv Cons.IH)
qed

lemma map_of_dict_update_filled: "map_of (dict_update g fill) k = filled g fill k"
  by (simp add: map_of_dict_update filled_def map_add_def split: option.splits)

lemma candidate_reading:
  assumes "reading g fill = Some ref"
  shows "\<exists>d. candidate g fill = Inr d \<and> make_image d = Inr ref"
proof -
  from assms obtain h u i t where
    f: "filled g fill ''hostname'' = Some h" "filled g fill ''username'' = Some u"
       "filled g fill ''image'' = Some i" "filled g fill ''tag'' = Some t"
    and ref: "ref = \<lparr>hostname = h, name = u @ ''/'' @ i, tag = t\<rparr>"
    by (auto simp: reading_def split: option.splits)
  have c: "candidate g fill =
      Inr (AList.delete ''username'' (AList.update ''image'' (u @ ''/'' @ i) (dict_update g fill)))"
    using f by (simp add: candidate_def getitem_def map_of_dict_update_filled)
  have m: "make_image (AList.delete ''username''
             (AList.update ''image'' (u @ ''/'' @ i) (dict_update g fill))) = Inr ref"
    using f by (simp add: make_image_def getitem_def delete_conv' update_conv'
        map_of_dict_update_filled ref)
  show ?thesis using c m by simp
qed

lemma filled_some:
  assumes "k \<in> fst ` set fill \<union> fst ` set g" shows "\<exists>v. filled g fill k = Some v"
proof (cases "map_of (rev fill) k")
  case None
  then have "k \<notin> fst ` set fill" by (simp add: map_of_eq_None_iff)
  with assms have "k \<in> fst ` set g" by simp
  then have "map_of g k \<noteq> None" by (simp add: map_of_eq_None_iff)
  with None show ?thesis by (auto simp: filled_def)
next
  case (Some v)
  then show ?thesis by (simp add: filled_def)
qed

lemma reading_some:
  assumes "{''hostname'', ''username'', ''image'', ''tag''} \<subseteq> fst ` set fill \<union> fst ` set g"
  shows "\<exists>ref. reading g fill = Some ref"
proof -
  from assms filled_some [of _ fill g] obtain h u i t where
    "filled g fill ''hostname'' = Some h" "filled g fill ''username'' = Some u"
    "filled g fill ''image'' = Some i" "filled g fill ''tag'' = Some t"
    by (meson insert_subset)
  then show ?thesis by (simp add: reading_def)
qed

lemma regexes_binds:
  "(r, fill) \<in> set regexes \<Longrightarrow>
   {''hostname'', ''username'', ''image'', ''tag''} \<subseteq> fst ` set fill \<union> binds r"
  unfolding regexes_def
  by (auto simp: build_re_def docker_image_re_def docker_username_re_def username_re_def
      image_re_def hostname_re_def sha_re_def tag_re_def)

lemma regexes_complete:
  assumes "(r, fill) \<in> set regexes" and "re_match r path = Some g"
  shows "\<exists>ref. reading g fill = Some ref"
proof -
  from regexes_binds [OF assms(1)] re_match_binds [OF assms(2)]
  have "{''hostname'', ''username'', ''image'', ''tag''} \<subseteq> fst ` set fill \<union> fst ` set g"
    by blast
  then show ?thesis by (rule reading_some)
qed

lemma collect_matches_conv:
  assumes "\<And>r fill g. (r, fill) \<in> set rs \<Longrightarrow> re_match r path = Some g \<Longrightarrow>
             \<exists>d. candidate g fill = Inr d"
  shows "collect_matches rs path acc =
           Inr (acc @ map (\<lambda>(r, fill). projr (candidate (the (re_match r path)) fill))
                        (filter (\<lambda>(r, fill). re_match r path \<noteq> None) rs))"
  using assms
proof (induction rs arbitrary: acc)
  case Nil
  show ?case by simp
next
  case (Cons x rs)
  obtain r fill where x: "x = (r, fill)" by (cases x)
  have ih: "collect_matches rs path acc' =
           Inr (acc' @ map (\<lambda>(r, fill). projr (candidate (the (re_match r path)) fill))
                        (filter (\<lambda>(r, fill). re_match r path \<noteq> None) rs))" for acc'
    by (rule Cons.IH) (rule Cons.prems, simp_all)
  show ?case
  proof (cases "re_match r path")
    case None
    then show ?thesis by (simp add: x ih)
  next
    case (Some g)
    from Cons.prems [of r fill g] Some obtain d where "candidate g fill = Inr d"
      by (auto simp: x)
    with Some show ?thesis by (simp add: x ih)
  qed
qed

lemma collect_matches_regexes:
  "collect_matches regexes path [] =
     Inr (map (\<lambda>(r, fill). projr (candidate (the (re_match r path)) fill))
            (matching_grammars path))"
proof -
  have "\<exists>d. candidate g fill = Inr d"
    if "(r, fill) \<in> set regexes" "re_match r path = Some g" for r fill g
    using regexes_complete [OF that] candidate_reading by blast
  from collect_matches_conv [of regexes path "[]", OF this]
  show ?thesis by (simp add: matching_grammars_def)
qed

lemma matching_grammar_reading:
  assumes "(r, fill) \<in> set (matching_grammars path)"
  shows "\<exists>g ref. re_match r path = Some g \<and> reading g fill = Some ref
           \<and> make_image (projr (candidate (the (re_match r path)) fill)) = Inr ref"
proof -
  from assms have in_table: "(r, fill) \<in> set regexes" and "re_match r path \<noteq> None"
    by (auto simp: matching_grammars_def)
  then obtain g where g: "re_match r path = Some g" by auto
  from regexes_complete [OF in_table g] obtain ref where ref: "reading g fill = Some ref" ..
  from candidate_reading [OF ref] obtain d where "candidate g fill = Inr d" "make_image d = Inr ref"
    by blast
  with g ref show ?thesis by simp
qed















lemma nginx_matching:
  "matching_grammars ''nginx'' =
     [(build_re [docker_image_re],
       [(''hostname'', ''registry-1.docker.io''), (''username'', ''library''),
        (''tag'', ''latest'')])]"
  by code_simp

text \<open>
  Claim C7. Exactly one grammar matches \<open>nginx\<close>, the bare image name, and
  \<open>from_path\<close> returns the image with hostname \<open>registry-1.docker.io\<close>, name
  \<open>library/nginx\<close> and tag \<open>latest\<close>.
\<close>

theorem from_path_nginx:
  "matching_grammars ''nginx'' =
     [(build_re [docker_image_re],
       [(''hostname'', ''registry-1.docker.io''), (''username'', ''library''),
        (''tag'', ''latest'')])]
   \<and> collect_matches regexes ''nginx'' [] =
     Inr [[(''image'', ''library/nginx''), (''hostname'', ''registry-1.docker.io''),
           (''tag'', ''latest'')]]
   \<and> from_path ''nginx'' =
     Inr \<lparr>hostname = ''registry-1.docker.io'', name = ''library/nginx'', tag = ''latest''\<rparr>"
proof (intro conjI)
  show "matching_grammars ''nginx'' =
     [(build_re [docker_image_re],
       [(''hostname'', ''registry-1.docker.io''), (''username'', ''library''),
        (''tag'', ''latest'')])]"
    by code_simp
  show "collect_matches regexes ''nginx'' [] =
     Inr [[(''image'', ''library/nginx''), (''hostname'', ''registry-1.docker.io''),
           (''tag'', ''latest'')]]"
    by code_simp
  show "from_path ''nginx'' =
     Inr \<lparr>hostname = ''registry-1.docker.io'', name = ''library/nginx'', tag = ''latest''\<rparr>"
    by code_simp
qed

subsection \<open>Every regex of the table is deterministic\<close>

lemma not_in_alnum [simp]:
  "\<not> in_class alnum CHR ''/''" "\<not> in_class alnum CHR '':''" "\<not> in_class alnum CHR ''@''"
  "\<not> in_class alnum CHR ''.''" "\<not> in_class alnum CHR 0x0A"
  "\<not> in_class alnum CHR ''_''" "\<not> in_class alnum CHR ''-''"
  by (simp_all add: in_class_def alnum_def)

lemma in_class_append [simp]: "in_class (xs @ ys) c = (in_class xs c \<or> in_class ys c)"
  by (simp add: in_class_def)

lemma in_class_One [simp]: "in_class (One d # xs) c = (c = d \<or> in_class xs c)"
  by (simp add: in_class_def)

lemma in_class_Nil [simp]: "in_class [] c = False"
  by (simp add: in_class_def)

lemma run_Behind_Bol [simp]:
  "run (Behind Bol) (b, s, g) = (if b = [] then [(b, s, g)] else [])"
  by simp

lemma run_Behind_Chr [simp]:
  "run (Behind (Chr c)) (b, s, g) = (if b \<noteq> [] \<and> hd b = c then [(b, s, g)] else [])"
  by (cases b) auto

lemma run_Ahead_Chr [simp]:
  "run (Ahead (Chr c)) (b, s, g) = (if s \<noteq> [] \<and> hd s = c then [(b, s, g)] else [])"
  by (cases s) auto

lemma run_Ahead_Eol [simp]:
  "run (Ahead Eol) (b, s, g) = (if s = [] \<or> s = [CHR 0x0A] then [(b, s, g)] else [])"
  by simp

lemma concat_map_all_Nil: "(\<And>x. x \<in> set xs \<Longrightarrow> f x = []) \<Longrightarrow> concat (map f xs) = []"
  by (induction xs) auto

lemma run_Rep1_then:
  assumes fails: "\<And>b c rest g. in_class cl c \<Longrightarrow> run k (b, c # rest, g) = []"
  shows "run (Cat (Rep1 cl) k) (b, s, g) =
           (if takeWhile (in_class cl) s = [] then []
            else run k (rev (takeWhile (in_class cl) s) @ b, dropWhile (in_class cl) s, g))"
proof -
  let ?p = "takeWhile (in_class cl) s"
  let ?m = "length ?p"
  let ?f = "\<lambda>n. run k (rev (take n s) @ b, drop n s, g)"
  have run_eq: "run (Cat (Rep1 cl) k) (b, s, g) = concat (map ?f (rev [1 ..< Suc ?m]))"
    by (simp add: comp_def)
  have short: "?f n = []" if "n < ?m" for n
  proof -
    from that have "n < length s" using length_takeWhile_le [of "in_class cl" s] by simp
    then have d: "drop n s = s ! n # drop (Suc n) s" by (simp add: Cons_nth_drop_Suc)
    from that have "in_class cl (?p ! n)" by (metis nth_mem set_takeWhileD)
    with that have "in_class cl (s ! n)" by (simp add: takeWhile_nth)
    with d fails show ?thesis by simp
  qed
  show ?thesis
  proof (cases "?m = 0")
    case True
    then show ?thesis by (simp add: run_eq)
  next
    case False
    then have "rev [1 ..< Suc ?m] = ?m # rev [1 ..< ?m]" by (simp add: Suc_le_eq)
    then have "concat (map ?f (rev [1 ..< Suc ?m])) = ?f ?m @ concat (map ?f (rev [1 ..< ?m]))"
      by simp
    also have "concat (map ?f (rev [1 ..< ?m])) = []"
      by (rule concat_map_all_Nil) (simp add: short)
    finally have c: "concat (map ?f (rev [1 ..< Suc ?m])) = ?f ?m" by simp
    have t: "take ?m s = ?p" by (rule takeWhile_eq_take [symmetric])
    have d: "drop ?m s = dropWhile (in_class cl) s" by (rule dropWhile_eq_drop [symmetric])
    have "run (Cat (Rep1 cl) k) (b, s, g) = ?f ?m" by (rule trans [OF run_eq c])
    also have "?f ?m = run k (rev ?p @ b, dropWhile (in_class cl) s, g)" by (simp only: t d)
    finally have r: "run (Cat (Rep1 cl) k) (b, s, g) =
        run k (rev ?p @ b, dropWhile (in_class cl) s, g)" .
    from False have "?p \<noteq> []" by simp
    then show ?thesis by (simp only: r if_False)
  qed
qed

declare run.simps [simp del]

declare run_Behind_Bol [simp del] run_Behind_Chr [simp del] run_Ahead_Chr [simp del]
  run_Ahead_Eol [simp del]

lemma det_Cat: "det r1 f1 \<Longrightarrow> det r2 f2 \<Longrightarrow> det (Cat r1 r2) (\<lambda>st. Option.bind (f1 st) f2)"
  by (auto simp: det_def run.simps split: option.splits)

lemma det_Bol: "det Bol step_Bol"
  by (auto simp: det_def step_Bol_def run.simps)

lemma det_Eol: "det Eol step_Eol"
  by (auto simp: det_def step_Eol_def run.simps)

lemma det_Chr: "det (Chr c) (step_Chr c)"
  by (auto simp: det_def step_Chr_def run.simps split: list.splits)

lemma det_group_step:
  assumes L: "\<And>b s g. run L (b, s, g) = (if lead b then [(b, s, g)] else [])"
      and F: "\<And>b s g. run F (b, s, g) = (if follow s then [(b, s, g)] else [])"
      and excl: "\<And>c rest. in_class cl c \<Longrightarrow> \<not> follow (c # rest)"
  shows "det (Grp n (Cat L (Cat (Rep1 cl) F))) (group_step n cl lead follow)"
  unfolding det_def
proof
  fix st :: mstate
  obtain b s g where st: "st = (b, s, g)" by (cases st)
  define p where "p = takeWhile (in_class cl) s"
  define r where "r = dropWhile (in_class cl) s"
  have rep: "run (Cat (Rep1 cl) F) (b, s, g) = (if p = [] then [] else run F (rev p @ b, r, g))"
    unfolding p_def r_def by (rule run_Rep1_then) (simp add: F excl)
  have inner: "run (Cat L (Cat (Rep1 cl) F)) (b, s, g) =
      (if lead b \<and> p \<noteq> [] \<and> follow r then [(rev p @ b, r, g)] else [])"
    by (simp add: run.simps(5) [of L "Cat (Rep1 cl) F"] L rep F)
  have "run (Grp n (Cat L (Cat (Rep1 cl) F))) (b, s, g) =
      (if lead b \<and> p \<noteq> [] \<and> follow r then [(rev p @ b, r, AList.update n p g)] else [])"
    by (simp add: run.simps(9) inner)
  then show "run (Grp n (Cat L (Cat (Rep1 cl) F))) st =
       (case group_step n cl lead follow st of None \<Rightarrow> [] | Some st' \<Rightarrow> [st'])"
    by (simp add: st group_step_def p_def r_def)
qed

lemma group_step_Some_iff:
  assumes excl: "\<And>c rest. in_class cl c \<Longrightarrow> \<not> follow (c # rest)"
  shows "group_step n cl lead follow (b, s, g) = Some (b', s', g') \<longleftrightarrow>
           (\<exists>p. p \<noteq> [] \<and> (\<forall>c\<in>set p. in_class cl c) \<and> s = p @ s' \<and> lead b \<and> follow s'
              \<and> b' = rev p @ b \<and> g' = AList.update n p g)"
proof
  assume "group_step n cl lead follow (b, s, g) = Some (b', s', g')"
  then have *: "lead b" "takeWhile (in_class cl) s \<noteq> []" "follow s'"
    "s' = dropWhile (in_class cl) s" "b' = rev (takeWhile (in_class cl) s) @ b"
    "g' = AList.update n (takeWhile (in_class cl) s) g"
    by (auto simp: group_step_def split: if_splits)
  show "\<exists>p. p \<noteq> [] \<and> (\<forall>c\<in>set p. in_class cl c) \<and> s = p @ s' \<and> lead b \<and> follow s'
              \<and> b' = rev p @ b \<and> g' = AList.update n p g"
    by (rule exI [of _ "takeWhile (in_class cl) s"]) (use * in \<open>auto dest: set_takeWhileD\<close>)
next
  assume "\<exists>p. p \<noteq> [] \<and> (\<forall>c\<in>set p. in_class cl c) \<and> s = p @ s' \<and> lead b \<and> follow s'
              \<and> b' = rev p @ b \<and> g' = AList.update n p g"
  then obtain p where p: "p \<noteq> []" "\<forall>c\<in>set p. in_class cl c" "s = p @ s'" "lead b" "follow s'"
    "b' = rev p @ b" "g' = AList.update n p g" by blast
  have stop: "s' = [] \<or> \<not> in_class cl (hd s')"
    using excl p(5) by (cases s') auto
  have t: "takeWhile (in_class cl) s = p"
    using p(2,3) stop by (cases s') (auto simp: takeWhile_append2 [of p])
  have d: "dropWhile (in_class cl) s = s'"
    using p(2,3) stop by (cases s') (auto simp: dropWhile_append2 [of p])
  have "group_step n cl lead follow (b, s, g) = Some (rev p @ b, s', AList.update n p g)"
    by (simp add: group_step_def t d p(1,4,5))
  then show "group_step n cl lead follow (b, s, g) = Some (b', s', g')"
    by (simp add: p(6,7))
qed

lemma run_lead_start: "run (Behind Bol) (b, s, g) = (if at_start b then [(b, s, g)] else [])"
  by (simp add: run_Behind_Bol at_start_def)

lemma run_lead_after: "run (Behind (Chr c)) (b, s, g) = (if after c b then [(b, s, g)] else [])"
  by (simp add: run_Behind_Chr after_def)

lemma run_lead_start_or_after:
  "run (Alt (Behind (Chr c)) (Behind Bol)) (b, s, g) =
     (if start_or_after c b then [(b, s, g)] else [])"
  by (auto simp: run.simps(6) run_Behind_Chr run_Behind_Bol start_or_after_def)

lemma run_follow_before: "run (Ahead (Chr c)) (b, s, g) = (if before c s then [(b, s, g)] else [])"
  by (simp add: run_Ahead_Chr before_def)

lemma run_follow_end: "run (Ahead Eol) (b, s, g) = (if at_end s then [(b, s, g)] else [])"
  by (simp add: run_Ahead_Eol at_end_def)

lemma run_follow_image_end:
  "run (Alt (Ahead (Chr CHR '':'')) (Alt (Ahead (Chr CHR ''@'')) (Ahead Eol))) (b, s, g) =
     (if image_end s then [(b, s, g)] else [])"
  by (cases s) (auto simp: run.simps(6) run_Ahead_Chr run_Ahead_Eol image_end_def before_def at_end_def)

lemma det_docker_username_re:
  "det docker_username_re (group_step ''username'' alnum at_start (before CHR ''/''))"
  unfolding docker_username_re_def
  by (rule det_group_step [OF run_lead_start run_follow_before]) (auto simp: before_def)

lemma det_username_re:
  "det username_re (group_step ''username'' name_chars (after CHR ''/'') (before CHR ''/''))"
  unfolding username_re_def
  by (rule det_group_step [OF run_lead_after run_follow_before]) (auto simp: before_def)

lemma det_docker_image_re:
  "det docker_image_re (group_step ''image'' name_chars (start_or_after CHR ''/'') image_end)"
  unfolding docker_image_re_def
  by (rule det_group_step [OF run_lead_start_or_after run_follow_image_end])
     (auto simp: image_end_def before_def at_end_def)

lemma det_image_re:
  "det image_re (group_step ''image'' path_chars (start_or_after CHR ''/'') image_end)"
  unfolding image_re_def
  by (rule det_group_step [OF run_lead_start_or_after run_follow_image_end])
     (auto simp: image_end_def before_def at_end_def)

lemma det_sha_re:
  "det sha_re (group_step ''tag'' host_tail_chars (after CHR ''@'') at_end)"
  unfolding sha_re_def
  by (rule det_group_step [OF run_lead_after run_follow_end]) (auto simp: at_end_def)

lemma det_tag_re:
  "det tag_re (group_step ''tag'' name_chars (after CHR '':'') at_end)"
  unfolding tag_re_def
  by (rule det_group_step [OF run_lead_after run_follow_end]) (auto simp: at_end_def)

lemma det_hostname_re: "det hostname_re step_hostname"
  unfolding det_def
proof
  fix st :: mstate
  obtain b s g where st: "st = (b, s, g)" by (cases st)
  define p1 where "p1 = takeWhile (in_class host_head_chars) s"
  define r1 where "r1 = dropWhile (in_class host_head_chars) s"
  define p2 where "p2 = takeWhile (in_class host_tail_chars) (tl r1)"
  define r2 where "r2 = dropWhile (in_class host_tail_chars) (tl r1)"
  let ?K2 = "Cat (Rep1 host_tail_chars) (Ahead (Chr CHR ''/''))"
  let ?K = "Cat (Chr CHR ''.'') ?K2"
  have tail: "run ?K2 (b', tl r1, g') =
      (if p2 \<noteq> [] \<and> before CHR ''/'' r2 then [(rev p2 @ b', r2, g')] else [])" for b' g'
  proof -
    have "run ?K2 (b', tl r1, g') =
        (if p2 = [] then [] else run (Ahead (Chr CHR ''/'')) (rev p2 @ b', r2, g'))"
      unfolding p2_def r2_def by (rule run_Rep1_then) (auto simp: run_Ahead_Chr)
    then show ?thesis by (simp add: run_follow_before)
  qed
  have dot: "run ?K (b', r1, g') =
      (if before CHR ''.'' r1 \<and> p2 \<noteq> [] \<and> before CHR ''/'' r2
       then [(rev p2 @ CHR ''.'' # b', r2, g')] else [])" for b' g'
  proof (cases r1)
    case Nil
    then show ?thesis by (simp add: run.simps(5) [of "Chr CHR ''.''"] run.simps(3) before_def)
  next
    case (Cons x xs)
    then have "tl r1 = xs" by simp
    with tail [of "CHR ''.'' # b'" g'] Cons show ?thesis
      by (simp add: run.simps(5) [of "Chr CHR ''.''"] run.simps(3) before_def)
  qed
  have head: "run (Cat (Rep1 host_head_chars) ?K) (b, s, g) =
      (if p1 = [] then [] else run ?K (rev p1 @ b, r1, g))"
    unfolding p1_def r1_def
    by (rule run_Rep1_then) (auto simp: run.simps(5) [of "Chr CHR ''.''"] run.simps(3))
  have inner: "run (Cat (Behind Bol) (Cat (Rep1 host_head_chars) ?K)) (b, s, g) =
      (if b = [] \<and> p1 \<noteq> [] \<and> before CHR ''.'' r1 \<and> p2 \<noteq> [] \<and> before CHR ''/'' r2
       then [(rev p2 @ CHR ''.'' # rev p1 @ b, r2, g)] else [])"
  proof (cases "b = []")
    case True
    with head show ?thesis
      by (simp add: run.simps(5) [of "Behind Bol"] run_Behind_Bol dot)
  next
    case False
    then show ?thesis
      by (simp add: run.simps(5) [of "Behind Bol"] run_Behind_Bol)
  qed
  have "run hostname_re (b, s, g) =
      (if b = [] \<and> p1 \<noteq> [] \<and> before CHR ''.'' r1 \<and> p2 \<noteq> [] \<and> before CHR ''/'' r2
       then [(rev (p1 @ CHR ''.'' # p2) @ b, r2, AList.update ''hostname'' (p1 @ CHR ''.'' # p2) g)]
       else [])"
    unfolding hostname_re_def by (simp add: run.simps(9) inner)
  then show "run hostname_re st = (case step_hostname st of None \<Rightarrow> [] | Some st' \<Rightarrow> [st'])"
    by (simp add: st step_hostname_def p1_def r1_def p2_def r2_def)
qed

lemma det_foldr:
  "list_all2 det parts fs \<Longrightarrow> det (foldr Cat parts Eol) (chain fs)"
proof (induction parts fs rule: list_all2_induct)
  case Nil
  have "chain [] = step_Eol" by (rule ext) simp
  then show ?case by (simp add: det_Eol)
next
  case (Cons r rs f fs)
  have "chain (f # fs) = (\<lambda>st. Option.bind (f st) (chain fs))" by (rule ext) simp
  with det_Cat [OF Cons.hyps(1) Cons.IH] show ?case by simp
qed

lemma re_match_chain:
  assumes "list_all2 det parts fs"
  shows "re_match (build_re parts) path = map_option (\<lambda>(b, s, g). g) (chain fs ([], path, []))"
proof -
  have "det (build_re parts) (\<lambda>st. Option.bind (step_Bol st) (chain fs))"
    unfolding build_re_def by (rule det_Cat [OF det_Bol det_foldr [OF assms]])
  then have "run (build_re parts) ([], path, []) =
      (case chain fs ([], path, []) of None \<Rightarrow> [] | Some st' \<Rightarrow> [st'])"
    by (simp add: det_def step_Bol_def)
  then show ?thesis
    by (simp add: re_match_def split: option.splits)
qed

lemmas det_parts = det_hostname_re det_docker_username_re det_username_re det_docker_image_re
  det_image_re det_sha_re det_tag_re det_Chr

lemma excludes_facts [simp]:
  "excludes alnum (before CHR ''/'')"
  "excludes name_chars (before CHR ''/'')"
  "excludes name_chars image_end"
  "excludes path_chars image_end"
  "excludes host_tail_chars at_end"
  "excludes name_chars at_end"
  by (auto simp: excludes_def before_def image_end_def at_end_def)

lemma group_step_iff:
  "excludes cl follow \<Longrightarrow>
   group_step n cl lead follow (b, s, g) = Some (b', s', g') \<longleftrightarrow>
     (\<exists>p. word cl p \<and> s = p @ s' \<and> lead b \<and> follow s'
        \<and> b' = rev p @ b \<and> g' = AList.update n p g)"
  by (subst group_step_Some_iff) (auto simp: excludes_def word_def)

lemma step_Chr_iff:
  "step_Chr c (b, s, g) = Some (b', s', g') \<longleftrightarrow> s = c # s' \<and> b' = c # b \<and> g' = g"
  by (auto simp: step_Chr_def split: list.splits)

lemma step_Eol_iff:
  "step_Eol (b, s, g) = Some (b', s', g') \<longleftrightarrow> at_end s \<and> b' = b \<and> s' = s \<and> g' = g"
  by (auto simp: step_Eol_def at_end_def)

lemma takeWhile_word:
  "word cl p \<Longrightarrow> r = [] \<or> \<not> in_class cl (hd r) \<Longrightarrow>
   takeWhile (in_class cl) (p @ r) = p \<and> dropWhile (in_class cl) (p @ r) = r"
  by (cases r) (auto simp: word_def takeWhile_append2 [of p] dropWhile_append2 [of p])

lemma step_hostname_iff:
  "step_hostname (b, s, g) = Some (b', s', g') \<longleftrightarrow>
     (\<exists>h1 h2. word host_head_chars h1 \<and> word host_tail_chars h2
        \<and> s = h1 @ CHR ''.'' # h2 @ s' \<and> b = [] \<and> before CHR ''/'' s'
        \<and> b' = rev (h1 @ CHR ''.'' # h2) \<and> g' = AList.update ''hostname'' (h1 @ CHR ''.'' # h2) g)"
proof
  assume a: "step_hostname (b, s, g) = Some (b', s', g')"
  define p1 where "p1 = takeWhile (in_class host_head_chars) s"
  define r1 where "r1 = dropWhile (in_class host_head_chars) s"
  define p2 where "p2 = takeWhile (in_class host_tail_chars) (tl r1)"
  define r2 where "r2 = dropWhile (in_class host_tail_chars) (tl r1)"
  from a have *: "b = []" "p1 \<noteq> []" "before CHR ''.'' r1" "p2 \<noteq> []" "before CHR ''/'' r2"
    "b' = rev (p1 @ CHR ''.'' # p2)" "s' = r2" "g' = AList.update ''hostname'' (p1 @ CHR ''.'' # p2) g"
    unfolding step_hostname_def p1_def r1_def p2_def r2_def by (auto split: if_splits)
  have s: "s = p1 @ r1" by (simp add: p1_def r1_def)
  from *(3) have r1: "r1 = CHR ''.'' # tl r1" by (cases r1) (auto simp: before_def)
  have t: "tl r1 = p2 @ r2" by (simp add: p2_def r2_def)
  have w1: "word host_head_chars p1"
    using *(2) by (auto simp: word_def p1_def dest: set_takeWhileD)
  have w2: "word host_tail_chars p2"
    using *(4) by (auto simp: word_def p2_def dest: set_takeWhileD)
  have "s = p1 @ CHR ''.'' # p2 @ s'"
    using s r1 t *(7) by simp
  with w1 w2 * show "\<exists>h1 h2. word host_head_chars h1 \<and> word host_tail_chars h2
        \<and> s = h1 @ CHR ''.'' # h2 @ s' \<and> b = [] \<and> before CHR ''/'' s'
        \<and> b' = rev (h1 @ CHR ''.'' # h2) \<and> g' = AList.update ''hostname'' (h1 @ CHR ''.'' # h2) g"
    by blast
next
  assume "\<exists>h1 h2. word host_head_chars h1 \<and> word host_tail_chars h2
        \<and> s = h1 @ CHR ''.'' # h2 @ s' \<and> b = [] \<and> before CHR ''/'' s'
        \<and> b' = rev (h1 @ CHR ''.'' # h2) \<and> g' = AList.update ''hostname'' (h1 @ CHR ''.'' # h2) g"
  then obtain h1 h2 where h: "word host_head_chars h1" "word host_tail_chars h2"
    "s = h1 @ CHR ''.'' # h2 @ s'" "b = []" "before CHR ''/'' s'"
    "b' = rev (h1 @ CHR ''.'' # h2)" "g' = AList.update ''hostname'' (h1 @ CHR ''.'' # h2) g"
    by blast
  have 1: "takeWhile (in_class host_head_chars) (h1 @ CHR ''.'' # h2 @ s') = h1 \<and>
           dropWhile (in_class host_head_chars) (h1 @ CHR ''.'' # h2 @ s') = CHR ''.'' # h2 @ s'"
    by (rule takeWhile_word [OF h(1)]) simp
  have 2: "takeWhile (in_class host_tail_chars) (h2 @ s') = h2 \<and>
           dropWhile (in_class host_tail_chars) (h2 @ s') = s'"
    using h(5) by (intro takeWhile_word [OF h(2)]) (auto simp: before_def)
  have e: "step_hostname (b, h1 @ CHR ''.'' # h2 @ s', g) =
      (if b = [] \<and> h1 \<noteq> [] \<and> before CHR ''.'' (CHR ''.'' # h2 @ s') \<and> h2 \<noteq> []
          \<and> before CHR ''/'' s'
       then Some (rev (h1 @ CHR ''.'' # h2) @ b, s',
                  AList.update ''hostname'' (h1 @ CHR ''.'' # h2) g)
       else None)"
    by (simp only: step_hostname_def prod.case 1 list.sel 2)
  from h(1,2) have ne: "h1 \<noteq> []" "h2 \<noteq> []" by (simp_all add: word_def)
  have "step_hostname (b, s, g) =
      Some (rev (h1 @ CHR ''.'' # h2), s', AList.update ''hostname'' (h1 @ CHR ''.'' # h2) g)"
    unfolding h(3) e using ne h(4,5) by (simp add: before_def)
  then show "step_hostname (b, s, g) = Some (b', s', g')" by (simp add: h(6,7))
qed

lemmas step_iffs = group_step_iff step_Chr_iff step_Eol_iff step_hostname_iff bind_eq_Some_conv

lemma match_bare_iff:
  "re_match (build_re [docker_image_re]) path = Some g \<longleftrightarrow>
     (\<exists>i nl. path = i @ nl \<and> word name_chars i \<and> at_end nl \<and> g = [(''image'', i)])"
  by (subst re_match_chain [where fs = "[group_step ''image'' name_chars (start_or_after CHR ''/'') image_end]"])
     (auto simp: det_parts step_iffs start_or_after_def image_end_def)

lemmas cond_defs = at_start_def after_def start_or_after_def before_def image_end_def

subsection \<open>What a match of each regex says about the path\<close>

lemma match_1:
  assumes "re_match (build_re [docker_image_re]) path = Some g"
  shows "\<exists>i nl. path = i @ nl \<and> word name_chars i \<and> at_end nl \<and> g = [(''image'', i)]"
  using assms
  by (subst (asm) re_match_chain [where fs = "[tok_docker_image]"])
     (auto simp: det_parts step_iffs cond_defs)

lemma match_2:
  assumes "re_match (build_re [docker_username_re, Chr CHR ''/'', docker_image_re]) path = Some g"
  shows "\<exists>u i nl. path = u @ CHR ''/'' # i @ nl \<and> word alnum u \<and> word name_chars i \<and> at_end nl
        \<and> g = [(''username'', u), (''image'', i)]"
  using assms
  by (subst (asm) re_match_chain
        [where fs = "[tok_docker_username, step_Chr CHR ''/'', tok_docker_image]"])
     (auto simp: det_parts step_iffs cond_defs)

lemma match_3:
  assumes "re_match (build_re [docker_image_re, Chr CHR '':'', tag_re]) path = Some g"
  shows "\<exists>i t nl. path = i @ CHR '':'' # t @ nl \<and> word name_chars i \<and> word name_chars t
        \<and> at_end nl \<and> g = [(''image'', i), (''tag'', t)]"
  using assms
  by (subst (asm) re_match_chain [where fs = "[tok_docker_image, step_Chr CHR '':'', tok_tag]"])
     (auto simp: det_parts step_iffs cond_defs)

lemma match_4:
  assumes "re_match (build_re [docker_username_re, Chr CHR ''/'', docker_image_re, Chr CHR '':'',
                               tag_re]) path = Some g"
  shows "\<exists>u i t nl. path = u @ CHR ''/'' # i @ CHR '':'' # t @ nl \<and> word alnum u
        \<and> word name_chars i \<and> word name_chars t \<and> at_end nl
        \<and> g = [(''username'', u), (''image'', i), (''tag'', t)]"
  using assms
  by (subst (asm) re_match_chain
        [where fs = "[tok_docker_username, step_Chr CHR ''/'', tok_docker_image,
                      step_Chr CHR '':'', tok_tag]"])
     (auto simp: det_parts step_iffs cond_defs)

lemma match_5:
  assumes "re_match (build_re [docker_image_re, Chr CHR ''@'', sha_re]) path = Some g"
  shows "\<exists>i t nl. path = i @ CHR ''@'' # t @ nl \<and> word name_chars i \<and> word host_tail_chars t
        \<and> at_end nl \<and> g = [(''image'', i), (''tag'', t)]"
  using assms
  by (subst (asm) re_match_chain [where fs = "[tok_docker_image, step_Chr CHR ''@'', tok_sha]"])
     (auto simp: det_parts step_iffs cond_defs)

lemma match_6:
  assumes "re_match (build_re [docker_username_re, Chr CHR ''/'', docker_image_re, Chr CHR ''@'',
                               sha_re]) path = Some g"
  shows "\<exists>u i t nl. path = u @ CHR ''/'' # i @ CHR ''@'' # t @ nl \<and> word alnum u
        \<and> word name_chars i \<and> word host_tail_chars t \<and> at_end nl
        \<and> g = [(''username'', u), (''image'', i), (''tag'', t)]"
  using assms
  by (subst (asm) re_match_chain
        [where fs = "[tok_docker_username, step_Chr CHR ''/'', tok_docker_image,
                      step_Chr CHR ''@'', tok_sha]"])
     (auto simp: det_parts step_iffs cond_defs)

lemma match_7:
  assumes "re_match (build_re [hostname_re, Chr CHR ''/'', username_re, Chr CHR ''/'', image_re])
             path = Some g"
  shows "\<exists>h1 h2 u i nl.
        path = h1 @ CHR ''.'' # h2 @ CHR ''/'' # u @ CHR ''/'' # i @ nl
        \<and> word host_head_chars h1 \<and> word host_tail_chars h2 \<and> word name_chars u
        \<and> word path_chars i \<and> at_end nl
        \<and> g = [(''hostname'', h1 @ CHR ''.'' # h2), (''username'', u), (''image'', i)]"
  using assms
  by (subst (asm) re_match_chain
        [where fs = "[step_hostname, step_Chr CHR ''/'', tok_username, step_Chr CHR ''/'',
                      tok_image]"])
     (auto simp: det_parts step_iffs cond_defs, blast+)

lemma match_8:
  assumes "re_match (build_re [hostname_re, Chr CHR ''/'', username_re, Chr CHR ''/'', image_re,
                               Chr CHR '':'', tag_re]) path = Some g"
  shows "\<exists>h1 h2 u i t nl.
        path = h1 @ CHR ''.'' # h2 @ CHR ''/'' # u @ CHR ''/'' # i @ CHR '':'' # t @ nl
        \<and> word host_head_chars h1 \<and> word host_tail_chars h2 \<and> word name_chars u
        \<and> word path_chars i \<and> word name_chars t \<and> at_end nl
        \<and> g = [(''hostname'', h1 @ CHR ''.'' # h2), (''username'', u), (''image'', i), (''tag'', t)]"
  using assms
  by (subst (asm) re_match_chain
        [where fs = "[step_hostname, step_Chr CHR ''/'', tok_username, step_Chr CHR ''/'',
                      tok_image, step_Chr CHR '':'', tok_tag]"])
     (auto simp: det_parts step_iffs cond_defs, blast+)

lemma match_9:
  assumes "re_match (build_re [hostname_re, Chr CHR ''/'', username_re, Chr CHR ''/'', image_re,
                               Chr CHR ''@'', sha_re]) path = Some g"
  shows "\<exists>h1 h2 u i t nl.
        path = h1 @ CHR ''.'' # h2 @ CHR ''/'' # u @ CHR ''/'' # i @ CHR ''@'' # t @ nl
        \<and> word host_head_chars h1 \<and> word host_tail_chars h2 \<and> word name_chars u
        \<and> word path_chars i \<and> word host_tail_chars t \<and> at_end nl
        \<and> g = [(''hostname'', h1 @ CHR ''.'' # h2), (''username'', u), (''image'', i), (''tag'', t)]"
  using assms
  by (subst (asm) re_match_chain
        [where fs = "[step_hostname, step_Chr CHR ''/'', tok_username, step_Chr CHR ''/'',
                      tok_image, step_Chr CHR ''@'', tok_sha]"])
     (auto simp: det_parts step_iffs cond_defs, blast+)

lemma word_alnum:
  "word alnum w \<Longrightarrow> CHR ''/'' \<notin> set w \<and> CHR '':'' \<notin> set w \<and> CHR ''@'' \<notin> set w"
  by (auto simp: word_def)

lemma word_name:
  "word name_chars w \<Longrightarrow> CHR ''/'' \<notin> set w \<and> CHR '':'' \<notin> set w \<and> CHR ''@'' \<notin> set w"
  by (auto simp: word_def)

lemma word_host_head:
  "word host_head_chars w \<Longrightarrow> CHR ''/'' \<notin> set w \<and> CHR '':'' \<notin> set w \<and> CHR ''@'' \<notin> set w"
  by (auto simp: word_def)

lemma word_host_tail:
  "word host_tail_chars w \<Longrightarrow> CHR ''/'' \<notin> set w \<and> CHR ''@'' \<notin> set w"
  by (auto simp: word_def)

lemma word_path:
  "word path_chars w \<Longrightarrow> CHR '':'' \<notin> set w \<and> CHR ''@'' \<notin> set w"
  by (auto simp: word_def)

lemma at_end_chars:
  "at_end nl \<Longrightarrow> CHR ''/'' \<notin> set nl \<and> CHR '':'' \<notin> set nl \<and> CHR ''@'' \<notin> set nl"
  by (auto simp: at_end_def)

lemma kind_1: "word name_chars i \<Longrightarrow> at_end nl \<Longrightarrow> kind (i @ nl) = 1"
  using word_name [of i] at_end_chars [of nl] by (simp add: kind_def)

lemma kind_2:
  "word alnum u \<Longrightarrow> word name_chars i \<Longrightarrow> at_end nl \<Longrightarrow> kind (u @ CHR ''/'' # i @ nl) = 2"
  using word_alnum [of u] word_name [of i] at_end_chars [of nl] by (simp add: kind_def)

lemma kind_3:
  "word name_chars i \<Longrightarrow> word name_chars t \<Longrightarrow> at_end nl \<Longrightarrow>
   kind (i @ CHR '':'' # t @ nl) = 3"
  using word_name [of i] word_name [of t] at_end_chars [of nl] by (simp add: kind_def)

lemma kind_4:
  "word alnum u \<Longrightarrow> word name_chars i \<Longrightarrow> word name_chars t \<Longrightarrow> at_end nl \<Longrightarrow>
   kind (u @ CHR ''/'' # i @ CHR '':'' # t @ nl) = 4"
  using word_alnum [of u] word_name [of i] word_name [of t] at_end_chars [of nl]
  by (simp add: kind_def)

lemma kind_5:
  "word name_chars i \<Longrightarrow> word host_tail_chars t \<Longrightarrow> at_end nl \<Longrightarrow>
   kind (i @ CHR ''@'' # t @ nl) = 5"
  using word_name [of i] word_host_tail [of t] at_end_chars [of nl] by (simp add: kind_def)

lemma kind_6:
  "word alnum u \<Longrightarrow> word name_chars i \<Longrightarrow> word host_tail_chars t \<Longrightarrow> at_end nl \<Longrightarrow>
   kind (u @ CHR ''/'' # i @ CHR ''@'' # t @ nl) = 6"
  using word_alnum [of u] word_name [of i] word_host_tail [of t] at_end_chars [of nl]
  by (simp add: kind_def)

lemma after_first_slash:
  "CHR ''/'' \<notin> set h1 \<Longrightarrow> CHR ''/'' \<notin> set h2 \<Longrightarrow>
   dropWhile (\<lambda>c. c \<noteq> CHR ''/'') (h1 @ CHR ''.'' # h2 @ CHR ''/'' # rest) = CHR ''/'' # rest"
proof -
  assume a: "CHR ''/'' \<notin> set h1" "CHR ''/'' \<notin> set h2"
  have "h1 @ CHR ''.'' # h2 @ CHR ''/'' # rest = (h1 @ CHR ''.'' # h2) @ CHR ''/'' # rest" by simp
  moreover have "dropWhile (\<lambda>c. c \<noteq> CHR ''/'') ((h1 @ CHR ''.'' # h2) @ CHR ''/'' # rest) =
      dropWhile (\<lambda>c. c \<noteq> CHR ''/'') (CHR ''/'' # rest)"
    by (rule dropWhile_append2) (use a in auto)
  ultimately show ?thesis by simp
qed

lemma kind_7:
  "word host_head_chars h1 \<Longrightarrow> word host_tail_chars h2 \<Longrightarrow> word name_chars u \<Longrightarrow>
   word path_chars i \<Longrightarrow> at_end nl \<Longrightarrow>
   kind (h1 @ CHR ''.'' # h2 @ CHR ''/'' # u @ CHR ''/'' # i @ nl) = 7"
  using word_host_head [of h1] word_host_tail [of h2] word_name [of u] word_path [of i]
    at_end_chars [of nl]
  by (simp add: kind_def after_first_slash)

lemma kind_8:
  "word host_head_chars h1 \<Longrightarrow> word host_tail_chars h2 \<Longrightarrow> word name_chars u \<Longrightarrow>
   word path_chars i \<Longrightarrow> word name_chars t \<Longrightarrow> at_end nl \<Longrightarrow>
   kind (h1 @ CHR ''.'' # h2 @ CHR ''/'' # u @ CHR ''/'' # i @ CHR '':'' # t @ nl) = 8"
  using word_host_head [of h1] word_host_tail [of h2] word_name [of u] word_path [of i]
    word_name [of t] at_end_chars [of nl]
  by (simp add: kind_def after_first_slash)

lemma kind_9:
  "word host_head_chars h1 \<Longrightarrow> word host_tail_chars h2 \<Longrightarrow> word name_chars u \<Longrightarrow>
   word path_chars i \<Longrightarrow> word host_tail_chars t \<Longrightarrow> at_end nl \<Longrightarrow>
   kind (h1 @ CHR ''.'' # h2 @ CHR ''/'' # u @ CHR ''/'' # i @ CHR ''@'' # t @ nl) = 9"
  using word_host_head [of h1] word_host_tail [of h2] word_name [of u] word_path [of i]
    word_host_tail [of t] at_end_chars [of nl]
  by (simp add: kind_def)

lemma re_match_kind:
  "re_match rx1 path = Some g \<Longrightarrow> kind path = 1"
  "re_match rx2 path = Some g \<Longrightarrow> kind path = 2"
  "re_match rx3 path = Some g \<Longrightarrow> kind path = 3"
  "re_match rx4 path = Some g \<Longrightarrow> kind path = 4"
  "re_match rx5 path = Some g \<Longrightarrow> kind path = 5"
  "re_match rx6 path = Some g \<Longrightarrow> kind path = 6"
  "re_match rx7 path = Some g \<Longrightarrow> kind path = 7"
  "re_match rx8 path = Some g \<Longrightarrow> kind path = 8"
  "re_match rx9 path = Some g \<Longrightarrow> kind path = 9"
  using match_1 [of path g] match_2 [of path g] match_3 [of path g] match_4 [of path g]
    match_5 [of path g] match_6 [of path g] match_7 [of path g] match_8 [of path g]
    match_9 [of path g]
  by (auto simp: kind_1 kind_2 kind_3 kind_4 kind_5 kind_6 kind_7 kind_8 kind_9)

lemma re_match_None:
  "kind path \<noteq> 1 \<Longrightarrow> re_match rx1 path = None"
  "kind path \<noteq> 2 \<Longrightarrow> re_match rx2 path = None"
  "kind path \<noteq> 3 \<Longrightarrow> re_match rx3 path = None"
  "kind path \<noteq> 4 \<Longrightarrow> re_match rx4 path = None"
  "kind path \<noteq> 5 \<Longrightarrow> re_match rx5 path = None"
  "kind path \<noteq> 6 \<Longrightarrow> re_match rx6 path = None"
  "kind path \<noteq> 7 \<Longrightarrow> re_match rx7 path = None"
  "kind path \<noteq> 8 \<Longrightarrow> re_match rx8 path = None"
  "kind path \<noteq> 9 \<Longrightarrow> re_match rx9 path = None"
  using re_match_kind [of path] by (metis not_Some_eq)+

lemma group_step_forward:
  "excludes cl follow \<Longrightarrow> word cl p \<Longrightarrow> lead b \<Longrightarrow> follow s' \<Longrightarrow>
   group_step n cl lead follow (b, p @ s', g) = Some (rev p @ b, s', AList.update n p g)"
  by (simp add: group_step_iff)

lemma step_hostname_forward:
  "word host_head_chars h1 \<Longrightarrow> word host_tail_chars h2 \<Longrightarrow> before CHR ''/'' s' \<Longrightarrow>
   step_hostname ([], h1 @ CHR ''.'' # h2 @ s', g) =
     Some (rev (h1 @ CHR ''.'' # h2), s', AList.update ''hostname'' (h1 @ CHR ''.'' # h2) g)"
  by (subst step_hostname_iff) blast

lemma step_Chr_forward: "step_Chr c (b, c # s, g) = Some (c # b, s, g)"
  by (simp add: step_Chr_def)

lemma step_Eol_forward: "at_end s \<Longrightarrow> step_Eol (b, s, g) = Some (b, s, g)"
  by (simp add: step_Eol_iff)

lemma match_8_complete:
  assumes "word host_head_chars h1" "word host_tail_chars h2" "word name_chars u"
    "word path_chars i" "word name_chars t" "at_end nl"
  shows "re_match rx8 (h1 @ CHR ''.'' # h2 @ CHR ''/'' # u @ CHR ''/'' # i @ CHR '':'' # t @ nl) =
     Some [(''hostname'', h1 @ CHR ''.'' # h2), (''username'', u), (''image'', i), (''tag'', t)]"
  using assms
  by (subst re_match_chain
        [where fs = "[step_hostname, step_Chr CHR ''/'', tok_username, step_Chr CHR ''/'',
                      tok_image, step_Chr CHR '':'', tok_tag]"])
     (simp_all add: det_parts step_hostname_forward group_step_forward step_Chr_forward
        step_Eol_forward cond_defs)

lemma match_9_complete:
  assumes "word host_head_chars h1" "word host_tail_chars h2" "word name_chars u"
    "word path_chars i" "word host_tail_chars t" "at_end nl"
  shows "re_match rx9 (h1 @ CHR ''.'' # h2 @ CHR ''/'' # u @ CHR ''/'' # i @ CHR ''@'' # t @ nl) =
     Some [(''hostname'', h1 @ CHR ''.'' # h2), (''username'', u), (''image'', i), (''tag'', t)]"
  using assms
  by (subst re_match_chain
        [where fs = "[step_hostname, step_Chr CHR ''/'', tok_username, step_Chr CHR ''/'',
                      tok_image, step_Chr CHR ''@'', tok_sha]"])
     (simp_all add: det_parts step_hostname_forward group_step_forward step_Chr_forward
        step_Eol_forward cond_defs)

subsection \<open>At most one grammar matches\<close>

lemma kind_range:
  "kind path = 1 \<or> kind path = 2 \<or> kind path = 3 \<or> kind path = 4 \<or> kind path = 5
   \<or> kind path = 6 \<or> kind path = 7 \<or> kind path = 8 \<or> kind path = 9"
  by (simp add: kind_def)

text \<open>
  No path is matched by two grammars of the table: the branch of \<open>from_path\<close> that raises
  "too many interpretations" guards the table against a later change and is never taken
  with the table as it is.
\<close>

lemma at_most_one_grammar: "length (matching_grammars path) \<le> 1"
  using kind_range [of path]
  by (elim disjE) (simp_all add: matching_grammars_def regexes_def re_match_None)

subsection \<open>Parsing the canonical form again\<close>

lemma from_path_Inr:
  assumes "from_path path = Inr img"
  shows "\<exists>r fill g. matching_grammars path = [(r, fill)] \<and> re_match r path = Some g
           \<and> reading g fill = Some img"
proof -
  let ?f = "\<lambda>(r, fill). projr (candidate (the (re_match r path)) fill)"
  from assms have len: "length (matching_grammars path) = 1"
    by (simp add: from_path_def from_path_with_def collect_matches_regexes split: if_splits)
  then obtain x where x: "matching_grammars path = [x]"
    by (cases "matching_grammars path") auto
  obtain r fill where rf: "x = (r, fill)" by (cases x)
  from x rf have "(r, fill) \<in> set (matching_grammars path)" by simp
  from matching_grammar_reading [OF this] obtain g ref where
    g: "re_match r path = Some g" "reading g fill = Some ref"
    "make_image (projr (candidate (the (re_match r path)) fill)) = Inr ref" by blast
  from assms have "make_image (projr (candidate (the (re_match r path)) fill)) = Inr img"
    by (simp add: from_path_def from_path_with_def collect_matches_regexes x rf)
  with g(3) have "ref = img" by simp
  with g x rf show ?thesis by blast
qed

lemma word_mono:
  "word alnum w \<Longrightarrow> word name_chars w"
  "word name_chars w \<Longrightarrow> word path_chars w"
  "word name_chars w \<Longrightarrow> word host_tail_chars w"
  by (auto simp: word_def)

lemma word_constants:
  "word host_head_chars ''registry-1''" "word host_tail_chars ''docker.io''"
  "word name_chars ''library''" "word host_tail_chars ''latest''"
  by (simp_all add: word_def in_class_def alnum_def)

lemma registry_host:
  "''registry-1.docker.io'' = ''registry-1'' @ CHR ''.'' # ''docker.io''"
  by simp

lemma well_formedI:
  "hostname img = h1 @ CHR ''.'' # h2 \<Longrightarrow> word host_head_chars h1 \<Longrightarrow> word host_tail_chars h2 \<Longrightarrow>
   name img = u @ CHR ''/'' # i \<Longrightarrow> word name_chars u \<Longrightarrow> word path_chars i \<Longrightarrow>
   word host_tail_chars (tag img) \<Longrightarrow> well_formed img"
  unfolding well_formed_def by blast

lemma reading_well_formed_1:
  assumes "re_match rx1 path = Some g"
    and "reading g [(''hostname'', ''registry-1.docker.io''), (''username'', ''library''), (''tag'', ''latest'')] = Some img"
  shows "well_formed img"
proof -
  from match_1 [OF assms(1)] obtain i nl where
    "word name_chars i" "g = [(''image'', i)]" by blast
  with assms(2) show ?thesis
    by (intro well_formedI [of _ "''registry-1''" "''docker.io''" "''library''" i])
       (auto simp: reading_def filled_def word_constants word_mono)
qed

lemma reading_well_formed_2:
  assumes "re_match rx2 path = Some g"
    and "reading g [(''hostname'', ''registry-1.docker.io''), (''tag'', ''latest'')] = Some img"
  shows "well_formed img"
proof -
  from match_2 [OF assms(1)] obtain u i nl where
    "word alnum u" "word name_chars i" "g = [(''username'', u), (''image'', i)]" by blast
  with assms(2) show ?thesis
    by (intro well_formedI [of _ "''registry-1''" "''docker.io''" u i])
       (auto simp: reading_def filled_def word_constants word_mono)
qed

lemma reading_well_formed_3:
  assumes "re_match rx3 path = Some g"
    and "reading g [(''hostname'', ''registry-1.docker.io''), (''username'', ''library'')] = Some img"
  shows "well_formed img"
proof -
  from match_3 [OF assms(1)] obtain i t nl where
    "word name_chars i" "word name_chars t" "g = [(''image'', i), (''tag'', t)]" by blast
  with assms(2) show ?thesis
    by (intro well_formedI [of _ "''registry-1''" "''docker.io''" "''library''" i])
       (auto simp: reading_def filled_def word_constants word_mono)
qed

lemma reading_well_formed_4:
  assumes "re_match rx4 path = Some g"
    and "reading g [(''hostname'', ''registry-1.docker.io'')] = Some img"
  shows "well_formed img"
proof -
  from match_4 [OF assms(1)] obtain u i t nl where
    "word alnum u" "word name_chars i" "word name_chars t"
    "g = [(''username'', u), (''image'', i), (''tag'', t)]" by blast
  with assms(2) show ?thesis
    by (intro well_formedI [of _ "''registry-1''" "''docker.io''" u i])
       (auto simp: reading_def filled_def word_constants word_mono)
qed

lemma reading_well_formed_5:
  assumes "re_match rx5 path = Some g"
    and "reading g [(''hostname'', ''registry-1.docker.io''), (''username'', ''library'')] = Some img"
  shows "well_formed img"
proof -
  from match_5 [OF assms(1)] obtain i t nl where
    "word name_chars i" "word host_tail_chars t" "g = [(''image'', i), (''tag'', t)]" by blast
  with assms(2) show ?thesis
    by (intro well_formedI [of _ "''registry-1''" "''docker.io''" "''library''" i])
       (auto simp: reading_def filled_def word_constants word_mono)
qed

lemma reading_well_formed_6:
  assumes "re_match rx6 path = Some g"
    and "reading g [(''hostname'', ''registry-1.docker.io'')] = Some img"
  shows "well_formed img"
proof -
  from match_6 [OF assms(1)] obtain u i t nl where
    "word alnum u" "word name_chars i" "word host_tail_chars t"
    "g = [(''username'', u), (''image'', i), (''tag'', t)]" by blast
  with assms(2) show ?thesis
    by (intro well_formedI [of _ "''registry-1''" "''docker.io''" u i])
       (auto simp: reading_def filled_def word_constants word_mono)
qed

lemma reading_well_formed_7:
  assumes "re_match rx7 path = Some g"
    and "reading g [(''tag'', ''latest'')] = Some img"
  shows "well_formed img"
proof -
  from match_7 [OF assms(1)] obtain h1 h2 u i nl where
    "word host_head_chars h1" "word host_tail_chars h2" "word name_chars u" "word path_chars i"
    "g = [(''hostname'', h1 @ CHR ''.'' # h2), (''username'', u), (''image'', i)]" by blast
  with assms(2) show ?thesis
    by (intro well_formedI [of _ h1 h2 u i])
       (auto simp: reading_def filled_def word_constants word_mono)
qed

lemma reading_well_formed_8:
  assumes "re_match rx8 path = Some g"
    and "reading g [] = Some img"
  shows "well_formed img"
proof -
  from match_8 [OF assms(1)] obtain h1 h2 u i t nl where
    "word host_head_chars h1" "word host_tail_chars h2" "word name_chars u" "word path_chars i"
    "word name_chars t"
    "g = [(''hostname'', h1 @ CHR ''.'' # h2), (''username'', u), (''image'', i), (''tag'', t)]"
    by blast
  with assms(2) show ?thesis
    by (intro well_formedI [of _ h1 h2 u i])
       (auto simp: reading_def filled_def word_constants word_mono)
qed

lemma reading_well_formed_9:
  assumes "re_match rx9 path = Some g"
    and "reading g [] = Some img"
  shows "well_formed img"
proof -
  from match_9 [OF assms(1)] obtain h1 h2 u i t nl where
    "word host_head_chars h1" "word host_tail_chars h2" "word name_chars u" "word path_chars i"
    "word host_tail_chars t"
    "g = [(''hostname'', h1 @ CHR ''.'' # h2), (''username'', u), (''image'', i), (''tag'', t)]"
    by blast
  with assms(2) show ?thesis
    by (intro well_formedI [of _ h1 h2 u i])
       (auto simp: reading_def filled_def word_constants word_mono)
qed

lemma reading_well_formed:
  assumes "(r, fill) \<in> set regexes" "re_match r path = Some g" "reading g fill = Some img"
  shows "well_formed img"
  using assms unfolding regexes_def list.set insert_iff empty_iff prod.inject
  apply -
  by (elim disjE conjE FalseE; hypsubst;
      (erule (1) reading_well_formed_1 | erule (1) reading_well_formed_2
       | erule (1) reading_well_formed_3 | erule (1) reading_well_formed_4
       | erule (1) reading_well_formed_5 | erule (1) reading_well_formed_6
       | erule (1) reading_well_formed_7 | erule (1) reading_well_formed_8
       | erule (1) reading_well_formed_9))

lemma from_path_well_formed:
  assumes "from_path path = Inr img" shows "well_formed img"
proof -
  from from_path_Inr [OF assms] obtain r fill g where
    m: "matching_grammars path = [(r, fill)]" and g: "re_match r path = Some g"
    and rd: "reading g fill = Some img" by blast
  from m have "(r, fill) \<in> set (matching_grammars path)" by simp
  then have "(r, fill) \<in> set regexes" by (simp add: matching_grammars_def)
  from reading_well_formed [OF this g rd] show ?thesis .
qed

lemma from_path_digest_form:
  assumes "word host_head_chars h1" "word host_tail_chars h2" "word name_chars u"
    "word path_chars i" "word host_tail_chars t"
  shows "from_path (h1 @ CHR ''.'' # h2 @ CHR ''/'' # u @ CHR ''/'' # i @ CHR ''@'' # t) =
           Inr \<lparr>hostname = h1 @ CHR ''.'' # h2, name = u @ CHR ''/'' # i, tag = t\<rparr>"
proof -
  let ?c = "h1 @ CHR ''.'' # h2 @ CHR ''/'' # u @ CHR ''/'' # i @ CHR ''@'' # t"
  have m: "re_match rx9 ?c =
      Some [(''hostname'', h1 @ CHR ''.'' # h2), (''username'', u), (''image'', i), (''tag'', t)]"
    using match_9_complete [OF assms, of "[]"] by (simp add: at_end_def)
  have k: "kind ?c = 9"
    using kind_9 [OF assms, of "[]"] by (simp add: at_end_def)
  have none: "re_match rx1 ?c = None" "re_match rx2 ?c = None" "re_match rx3 ?c = None"
    "re_match rx4 ?c = None" "re_match rx5 ?c = None" "re_match rx6 ?c = None"
    "re_match rx7 ?c = None" "re_match rx8 ?c = None"
    by (simp_all add: re_match_None k)
  show ?thesis
    unfolding from_path_def from_path_with_def regexes_def
    by (simp add: none m candidate_def dict_update_def getitem_def make_image_def)
qed

lemma from_path_tag_form:
  assumes "word host_head_chars h1" "word host_tail_chars h2" "word name_chars u"
    "word path_chars i" "word name_chars t"
  shows "from_path (h1 @ CHR ''.'' # h2 @ CHR ''/'' # u @ CHR ''/'' # i @ CHR '':'' # t) =
           Inr \<lparr>hostname = h1 @ CHR ''.'' # h2, name = u @ CHR ''/'' # i, tag = t\<rparr>"
proof -
  let ?c = "h1 @ CHR ''.'' # h2 @ CHR ''/'' # u @ CHR ''/'' # i @ CHR '':'' # t"
  have m: "re_match rx8 ?c =
      Some [(''hostname'', h1 @ CHR ''.'' # h2), (''username'', u), (''image'', i), (''tag'', t)]"
    using match_8_complete [OF assms, of "[]"] by (simp add: at_end_def)
  have k: "kind ?c = 8"
    using kind_8 [OF assms, of "[]"] by (simp add: at_end_def)
  have none: "re_match rx1 ?c = None" "re_match rx2 ?c = None" "re_match rx3 ?c = None"
    "re_match rx4 ?c = None" "re_match rx5 ?c = None" "re_match rx6 ?c = None"
    "re_match rx7 ?c = None" "re_match rx9 ?c = None"
    by (simp_all add: re_match_None k)
  show ?thesis
    unfolding from_path_def from_path_with_def regexes_def
    by (simp add: none m candidate_def dict_update_def getitem_def make_image_def)
qed

lemma word_without_colon:
  "word host_tail_chars t \<Longrightarrow> CHR '':'' \<notin> set t \<Longrightarrow> word name_chars t"
  by (auto simp: word_def)

lemma well_formed_roundtrip:
  assumes "well_formed img"
  shows "from_path (canonical_with CHR ''@'' img) = Inr img"
    and "CHR '':'' \<notin> set (tag img) \<Longrightarrow> from_path (canonical_with CHR '':'' img) = Inr img"
proof -
  from assms obtain h1 h2 u i where p: "hostname img = h1 @ CHR ''.'' # h2"
    "word host_head_chars h1" "word host_tail_chars h2" "name img = u @ CHR ''/'' # i"
    "word name_chars u" "word path_chars i" "word host_tail_chars (tag img)"
    unfolding well_formed_def by blast
  have img: "img = \<lparr>hostname = h1 @ CHR ''.'' # h2, name = u @ CHR ''/'' # i, tag = tag img\<rparr>"
    using p(1,4) by (cases img) simp
  show "from_path (canonical_with CHR ''@'' img) = Inr img"
    using from_path_digest_form [OF p(2,3,5,6,7)] img
    by (simp add: canonical_with_def p(1,4))
  show "from_path (canonical_with CHR '':'' img) = Inr img" if "CHR '':'' \<notin> set (tag img)"
    using from_path_tag_form [OF p(2,3,5,6) word_without_colon [OF p(7) that]] img
    by (simp add: canonical_with_def p(1,4))
qed

text \<open>
  Claim C8. \<open>from_path\<close> reads nothing but the path, so it is a function of the path:
  two runs on the same input give equal results. For every path that \<open>from_path\<close> parses
  to an image, parsing the canonical string form of that image gives the same image. The
  same holds whenever the tag is written after \<open>@\<close>, and whenever a tag without a colon
  is written after \<open>:\<close>.
\<close>

theorem from_path_canonical_roundtrip:
  "from_path path = Inr img \<longrightarrow>
     from_path (canonical img) = Inr img
     \<and> from_path (canonical_with CHR ''@'' img) = Inr img
     \<and> (CHR '':'' \<notin> set (tag img) \<longrightarrow> from_path (canonical_with CHR '':'' img) = Inr img)"
proof
  assume "from_path path = Inr img"
  then have wf: "well_formed img" by (rule from_path_well_formed)
  from well_formed_roundtrip [OF wf]
  show "from_path (canonical img) = Inr img
     \<and> from_path (canonical_with CHR ''@'' img) = Inr img
     \<and> (CHR '':'' \<notin> set (tag img) \<longrightarrow> from_path (canonical_with CHR '':'' img) = Inr img)"
    by (simp add: canonical_def)
qed

text \<open>
  Claim C8 at concrete inputs: \<open>nginx\<close>, and \<open>nginx\<close> with a digest.
\<close>

theorem from_path_canonical_roundtrip_witness:
  "from_path ''nginx'' = Inr nginx_image
   \<and> canonical nginx_image = ''registry-1.docker.io/library/nginx:latest''
   \<and> from_path ''registry-1.docker.io/library/nginx:latest'' = Inr nginx_image
   \<and> from_path ''nginx@sha256:abc'' = Inr nginx_digest_image
   \<and> canonical nginx_digest_image = ''registry-1.docker.io/library/nginx@sha256:abc''
   \<and> from_path ''registry-1.docker.io/library/nginx@sha256:abc'' = Inr nginx_digest_image"
proof -
  have p1: "from_path ''nginx'' = Inr nginx_image"
    unfolding nginx_image_def by code_simp
  have c1: "canonical nginx_image = ''registry-1.docker.io/library/nginx:latest''"
    by (simp add: canonical_def canonical_with_def nginx_image_def)
  have p2: "from_path ''nginx@sha256:abc'' = Inr nginx_digest_image"
    unfolding nginx_digest_image_def by code_simp
  have c2: "canonical nginx_digest_image = ''registry-1.docker.io/library/nginx@sha256:abc''"
    by (simp add: canonical_def canonical_with_def nginx_digest_image_def)
  from from_path_canonical_roundtrip [of "''nginx''" nginx_image] p1 c1
  have r1: "from_path ''registry-1.docker.io/library/nginx:latest'' = Inr nginx_image"
    by simp
  from from_path_canonical_roundtrip [of "''nginx@sha256:abc''" nginx_digest_image] p2 c2
  have r2: "from_path ''registry-1.docker.io/library/nginx@sha256:abc'' = Inr nginx_digest_image"
    by simp
  from p1 c1 r1 p2 c2 r2 show ?thesis by blast
qed

end
